theory Spec2Isabelle
  imports Main "HOL-Library.AList" "HOL-Library.Sublist"
begin

section \<open>The webclaw command line tool\<close>

text \<open>
  The scaffolding script of the repository (the second document of
  \<^verbatim>\<open>use-session-shortcuts.ts\<close>, starting at \<^verbatim>\<open>#!/usr/bin/env node\<close>) is embedded
  function by function. The script talks to three things outside itself: the file
  system (\<^verbatim>\<open>node:fs\<close>), child processes (\<^verbatim>\<open>spawnSync\<close>) and the standard streams. The
  file system is a tree that the functions pass along and return; child processes are a
  function of the environment that may change the tree in any way; every write to a
  stream, every spawned process and every mutating file system call is appended to a
  trace, so that "nothing was written" and "this happened before that" are statements
  about the trace.

  The file system has directories and regular files only: no symbolic links, no
  permissions, no limit on the length of a path. The library functions
  (\<^verbatim>\<open>node:path\<close>, \<^verbatim>\<open>node:fs\<close>, \<^verbatim>\<open>spawnSync\<close>, \<^verbatim>\<open>process.exit\<close>) are modelled from
  their documented behaviour on POSIX.
\<close>

subsection \<open>Paths\<close>

text \<open>
  An absolute, normalised POSIX path is the list of its components: \<^verbatim>\<open>/a/b\<close> is
  \<open>[''a'', ''b'']\<close> and the root is \<open>[]\<close>. \<^verbatim>\<open>path.join(dir, name)\<close> with a plain
  name is \<open>dir @ [name]\<close>.
\<close>

type_synonym path = "string list"

definition render :: "path \<Rightarrow> string" where
  "render p = (if p = [] then ''/'' else concat (map (\<lambda>c. ''/'' @ c) p))"

fun split_slash :: "string \<Rightarrow> string list" where
  "split_slash [] = [[]]"
| "split_slash (x # xs) =
     (if x = CHR ''/'' then [] # split_slash xs
      else (case split_slash xs of
              [] \<Rightarrow> [[x]]
            | w # ws \<Rightarrow> (x # w) # ws))"

text \<open>
  Normalisation as \<^verbatim>\<open>path.resolve\<close> does it: empty segments and \<^verbatim>\<open>.\<close> are dropped,
  \<^verbatim>\<open>..\<close> removes the last component (and stays at the root).
\<close>

fun normalize :: "path \<Rightarrow> string list \<Rightarrow> path" where
  "normalize acc [] = acc"
| "normalize acc (s # ss) =
     (if s = [] \<or> s = ''.'' then normalize acc ss
      else if s = ''..'' then normalize (butlast acc) ss
      else normalize (acc @ [s]) ss)"

text \<open>
  \<^verbatim>\<open>path.resolve(cwd, raw)\<close> for an absolute, normalised \<open>cwd\<close>: an absolute \<open>raw\<close>
  replaces \<open>cwd\<close>, a relative one is appended to it.
\<close>

definition resolve :: "path \<Rightarrow> string \<Rightarrow> path" where
  "resolve cwd raw =
     (case raw of
        x # xs \<Rightarrow> if x = CHR ''/'' then normalize [] (split_slash raw)
                  else normalize cwd (split_slash raw)
      | [] \<Rightarrow> cwd)"

fun strip_common :: "path \<Rightarrow> path \<Rightarrow> path \<times> path" where
  "strip_common (a # as) (b # bs) =
     (if a = b then strip_common as bs else (a # as, b # bs))"
| "strip_common as bs = (as, bs)"

text \<open>\<^verbatim>\<open>path.relative(from, to)\<close>; the empty string when both are the same.\<close>

definition relative :: "path \<Rightarrow> path \<Rightarrow> string" where
  "relative from to =
     (case strip_common from to of
        (up, down) \<Rightarrow>
          (case replicate (length up) ''..'' @ down of
             [] \<Rightarrow> []
           | c # cs \<Rightarrow> c @ concat (map (\<lambda>d. ''/'' @ d) cs)))"

subsection \<open>The file system\<close>

datatype node = File string | Dir "(string \<times> node) list"

datatype errno = ENOENT | ENOTDIR | EEXIST | EISDIR

fun lookup :: "node \<Rightarrow> path \<Rightarrow> node option" where
  "lookup n [] = Some n"
| "lookup (File c) (d # ds) = None"
| "lookup (Dir es) (d # ds) =
     (case map_of es d of None \<Rightarrow> None | Some m \<Rightarrow> lookup m ds)"

definition existsSync :: "node \<Rightarrow> path \<Rightarrow> bool" where
  "existsSync root p = (lookup root p \<noteq> None)"

text \<open>\<^verbatim>\<open>fs.readdirSync(dir)\<close>: the names, or the error thrown.\<close>

definition readdirSync :: "node \<Rightarrow> path \<Rightarrow> errno + string list" where
  "readdirSync root p =
     (case lookup root p of
        None \<Rightarrow> Inl ENOENT
      | Some (File c) \<Rightarrow> Inl ENOTDIR
      | Some (Dir es) \<Rightarrow> Inr (map fst es))"

fun isDirectory :: "node \<Rightarrow> bool" where
  "isDirectory (Dir es) = True"
| "isDirectory (File c) = False"

text \<open>\<^verbatim>\<open>fs.readdirSync(dir, { withFileTypes: true })\<close>: names with \<^verbatim>\<open>isDirectory()\<close>.\<close>

definition readdirTypes :: "node \<Rightarrow> path \<Rightarrow> errno + (string \<times> bool) list" where
  "readdirTypes root p =
     (case lookup root p of
        None \<Rightarrow> Inl ENOENT
      | Some (File c) \<Rightarrow> Inl ENOTDIR
      | Some (Dir es) \<Rightarrow> Inr (map (\<lambda>(name, m). (name, isDirectory m)) es))"

text \<open>
  \<^verbatim>\<open>fs.mkdirSync(dir, { recursive: true })\<close>: creates the missing directories of the
  path; fails when a component of the path is a file.
\<close>

fun mkdirp :: "node \<Rightarrow> path \<Rightarrow> errno + node" where
  "mkdirp (Dir es) [] = Inr (Dir es)"
| "mkdirp (File c) [] = Inl EEXIST"
| "mkdirp (File c) (d # ds) = Inl ENOTDIR"
| "mkdirp (Dir es) (d # ds) =
     (case mkdirp (case map_of es d of None \<Rightarrow> Dir [] | Some m \<Rightarrow> m) ds of
        Inl e \<Rightarrow> Inl e
      | Inr m' \<Rightarrow> Inr (Dir (AList.update d m' es)))"

text \<open>
  \<^verbatim>\<open>fs.rmSync(p, { recursive: true, force: true })\<close>: removes the entry and everything
  below it; a missing path is not an error.
\<close>

fun rmrf :: "node \<Rightarrow> path \<Rightarrow> node" where
  "rmrf n [] = n"
| "rmrf (File c) (d # ds) = File c"
| "rmrf (Dir es) [d] = Dir (AList.delete d es)"
| "rmrf (Dir es) (d # ds) =
     (case map_of es d of
        None \<Rightarrow> Dir es
      | Some m \<Rightarrow> Dir (AList.update d (rmrf m ds) es))"

text \<open>Writing a file: the parent must be a directory, the path itself must not be one.\<close>

fun writeFile :: "node \<Rightarrow> path \<Rightarrow> string \<Rightarrow> errno + node" where
  "writeFile (File old) [] c = Inr (File c)"
| "writeFile (Dir es) [] c = Inl EISDIR"
| "writeFile (File old) (d # ds) c = Inl ENOTDIR"
| "writeFile (Dir es) (d # ds) c =
     (case map_of es d of
        None \<Rightarrow> if ds = [] then Inr (Dir (AList.update d (File c) es)) else Inl ENOENT
      | Some m \<Rightarrow>
          (case writeFile m ds c of
             Inl e \<Rightarrow> Inl e
           | Inr m' \<Rightarrow> Inr (Dir (AList.update d m' es))))"

text \<open>\<^verbatim>\<open>fs.copyFileSync(src, dst)\<close>.\<close>

definition copyFile :: "node \<Rightarrow> path \<Rightarrow> path \<Rightarrow> errno + node" where
  "copyFile root src dst =
     (case lookup root src of
        None \<Rightarrow> Inl ENOENT
      | Some (Dir es) \<Rightarrow> Inl EISDIR
      | Some (File c) \<Rightarrow> writeFile root dst c)"

text \<open>
  \<^verbatim>\<open>fs.mkdtempSync(path.join(dir, prefix))\<close>: a new directory \<open>dir/prefixXXXXXX\<close>.
  The random suffixes the system would try are a list of the environment; the first
  one whose name is free is taken.
\<close>

definition mkdtemp :: "node \<Rightarrow> path \<Rightarrow> string \<Rightarrow> string list \<Rightarrow> errno + (path \<times> node)" where
  "mkdtemp root dir pre sufs =
     (case lookup root dir of
        None \<Rightarrow> Inl ENOENT
      | Some (File c) \<Rightarrow> Inl ENOTDIR
      | Some (Dir es) \<Rightarrow>
          (case filter (\<lambda>s. map_of es (pre @ s) = None) sufs of
             [] \<Rightarrow> Inl EEXIST
           | s # rest \<Rightarrow>
               (case mkdirp root (dir @ [pre @ s]) of
                  Inl e \<Rightarrow> Inl e
                | Inr root' \<Rightarrow> Inr (dir @ [pre @ s], root'))))"

subsection \<open>Processes, state and outcomes\<close>

text \<open>
  What \<^verbatim>\<open>spawnSync\<close> returns: \<^verbatim>\<open>result.error\<close> set, a numeric \<^verbatim>\<open>result.status\<close>, or
  a \<^verbatim>\<open>null\<close> status (the child was killed by a signal).
\<close>

datatype spawn_result = SpawnError errno | Status int | Killed

datatype event =
    Stdout string
  | Stderr string
  | Spawn string "string list" path
  | Mkdir path
  | Rm path
  | CopyFile path path
  | Mkdtemp path

record state =
  fs :: node
  trace :: "event list"

text \<open>
  The environment of one run: \<^verbatim>\<open>process.cwd()\<close>, \<^verbatim>\<open>process.argv\<close>, \<^verbatim>\<open>os.tmpdir()\<close>,
  the suffixes \<^verbatim>\<open>mkdtempSync\<close> draws, the major version of the runtime, and what a
  child process started with a command, arguments and working directory does to the
  file system and how it ends.
\<close>

record env =
  cwd :: path
  argv :: "string list"
  tmpdir :: path
  suffixes :: "string list"
  nodeMajor :: nat
  spawn :: "string \<Rightarrow> string list \<Rightarrow> path \<Rightarrow> node \<Rightarrow> spawn_result \<times> node"

text \<open>
  How a call ends: it returns a value, \<^verbatim>\<open>process.exit(n)\<close> ends the process, or an
  exception is thrown and nothing catches it.
\<close>

datatype 'a res = Ok 'a | Exit int | Throw errno

text \<open>The exit status of the process when \<^verbatim>\<open>main()\<close> ends this way.\<close>

fun exit_status :: "unit res \<Rightarrow> int" where
  "exit_status (Ok u) = 0"
| "exit_status (Exit n) = n"
| "exit_status (Throw e) = 1"

definition emit :: "event \<Rightarrow> state \<Rightarrow> state" where
  "emit e st = st\<lparr>trace := trace st @ [e]\<rparr>"

definition REPO_URL :: string where
  "REPO_URL = ''https://github.com/ibelick/webclaw''"

subsection \<open>Running commands and detecting the project\<close>

text \<open>
  \<^verbatim>\<open>runCommand\<close> (lines 69-81): a spawn error is thrown, a non-zero numeric status
  ends the process with that status, anything else returns.
\<close>

definition runCommand :: "env \<Rightarrow> string \<Rightarrow> string list \<Rightarrow> path \<Rightarrow> state \<Rightarrow> unit res \<times> state" where
  "runCommand e command args dir st =
     (case spawn e command args dir (fs st) of
        (result, root') \<Rightarrow>
          (let st' = emit (Spawn command args dir) (st\<lparr>fs := root'\<rparr>) in
           case result of
             SpawnError err \<Rightarrow> (Throw err, st')
           | Status n \<Rightarrow> if n \<noteq> 0 then (Exit n, st') else (Ok (), st')
           | Killed \<Rightarrow> (Ok (), st')))"

definition detectPackageManager :: "node \<Rightarrow> path \<Rightarrow> string" where
  "detectPackageManager root dir =
     (if existsSync root (dir @ [''pnpm-lock.yaml'']) then ''pnpm''
      else if existsSync root (dir @ [''yarn.lock'']) then ''yarn''
      else ''npm'')"

record detected =
  mode :: string
  appDir :: path

definition detectProjectRoot :: "node \<Rightarrow> path \<Rightarrow> detected option" where
  "detectProjectRoot root dir =
     (let appDir = dir @ [''apps'', ''webclaw''];
          appPackage = appDir @ [''package.json'']
      in if existsSync root appPackage then Some \<lparr>mode = ''monorepo'', appDir = appDir\<rparr>
         else (let packagePath = dir @ [''package.json'']
               in if existsSync root packagePath then Some \<lparr>mode = ''single'', appDir = dir\<rparr>
                  else None))"

definition noProjectMessage :: string where
  "noProjectMessage =
     ''No WebClaw project found in this directory. Run `webclaw init` first.\<newline>''"

definition runProjectScript :: "env \<Rightarrow> string \<Rightarrow> state \<Rightarrow> unit res \<times> state" where
  "runProjectScript e scriptName st =
     (case detectProjectRoot (fs st) (cwd e) of
        None \<Rightarrow> (Exit 1, emit (Stderr noProjectMessage) st)
      | Some d \<Rightarrow>
          (let packageManager = detectPackageManager (fs st) (cwd e) in
           if mode d = ''monorepo'' then
             (if packageManager = ''pnpm''
              then runCommand e ''pnpm'' [''-C'', ''apps/webclaw'', scriptName] (cwd e) st
              else runCommand e packageManager [''run'', scriptName] (appDir d) st)
           else runCommand e packageManager [''run'', scriptName] (appDir d) st))"

subsection \<open>Directories: create, copy, classify\<close>

definition ensureDir :: "path \<Rightarrow> state \<Rightarrow> unit res \<times> state" where
  "ensureDir targetDir st =
     (if \<not> existsSync (fs st) targetDir then
        (case mkdirp (fs st) targetDir of
           Inl err \<Rightarrow> (Throw err, st)
         | Inr root' \<Rightarrow> (Ok (), emit (Mkdir targetDir) (st\<lparr>fs := root'\<rparr>)))
      else (Ok (), st))"

text \<open>The names \<^verbatim>\<open>copyDir\<close> skips (lines 135-141).\<close>

definition skipped :: "string \<Rightarrow> bool" where
  "skipped name =
     (name = ''node_modules'' \<or> name = ''.git'' \<or> name = ''.env.local'' \<or>
      name = ''.openclaw'' \<or> name = ''.webclaw'' \<or> name = ''.tanstack'' \<or>
      name = ''.DS_Store'')"

definition copyFileSync :: "path \<Rightarrow> path \<Rightarrow> state \<Rightarrow> unit res \<times> state" where
  "copyFileSync src dst st =
     (case copyFile (fs st) src dst of
        Inl err \<Rightarrow> (Throw err, st)
      | Inr root' \<Rightarrow> (Ok (), emit (CopyFile src dst) (st\<lparr>fs := root'\<rparr>)))"

text \<open>
  \<^verbatim>\<open>copyDir\<close> (lines 131-150) reads each directory when it reaches it, from the file
  system as the copy has left it so far, and recurses into subdirectories. When the
  target lies inside the source the recursion need not end, so the model takes fuel:
  one unit per level of recursion, \<open>None\<close> when it runs out.
\<close>

function copyDir :: "nat \<Rightarrow> path \<Rightarrow> path \<Rightarrow> state \<Rightarrow> (unit res \<times> state) option"
  and copyEntries ::
    "nat \<Rightarrow> path \<Rightarrow> path \<Rightarrow> (string \<times> bool) list \<Rightarrow> state \<Rightarrow> (unit res \<times> state) option"
  where
  "copyDir 0 sourceDir targetDir st = None"
| "copyDir (Suc k) sourceDir targetDir st =
     (case ensureDir targetDir st of
        (Ok u, st1) \<Rightarrow>
          (case readdirTypes (fs st1) sourceDir of
             Inl err \<Rightarrow> Some (Throw err, st1)
           | Inr entries \<Rightarrow> copyEntries k sourceDir targetDir entries st1)
      | (Exit n, st1) \<Rightarrow> Some (Exit n, st1)
      | (Throw err, st1) \<Rightarrow> Some (Throw err, st1))"
| "copyEntries k sourceDir targetDir [] st = Some (Ok (), st)"
| "copyEntries k sourceDir targetDir ((name, isDir) # entries) st =
     (if skipped name then copyEntries k sourceDir targetDir entries st
      else if isDir then
        (case copyDir k (sourceDir @ [name]) (targetDir @ [name]) st of
           None \<Rightarrow> None
         | Some (Ok u, st') \<Rightarrow> copyEntries k sourceDir targetDir entries st'
         | Some (Exit n, st') \<Rightarrow> Some (Exit n, st')
         | Some (Throw err, st') \<Rightarrow> Some (Throw err, st'))
      else
        (case copyFileSync (sourceDir @ [name]) (targetDir @ [name]) st of
           (Ok u, st') \<Rightarrow> copyEntries k sourceDir targetDir entries st'
         | (Exit n, st') \<Rightarrow> Some (Exit n, st')
         | (Throw err, st') \<Rightarrow> Some (Throw err, st')))"
  by pat_completeness auto
termination
  by (relation "inv_image (less_than <*lex*> less_than <*lex*> less_than)
        (\<lambda>x. case x of
           Inl (k, s, t, st) \<Rightarrow> (k, 0::nat, 0::nat)
         | Inr (k, s, t, es, st) \<Rightarrow> (k, 1, length es))") auto

text \<open>\<^verbatim>\<open>isDirEmpty\<close> (lines 152-158).\<close>

definition isDirEmpty :: "node \<Rightarrow> path \<Rightarrow> errno + bool" where
  "isDirEmpty root targetDir =
     (if \<not> existsSync root targetDir then Inr True
      else (case readdirSync root targetDir of
              Inl err \<Rightarrow> Inl err
            | Inr names \<Rightarrow>
                Inr (length (filter (\<lambda>file. file \<noteq> ''.DS_Store'' \<and> file \<noteq> ''.git'') names) = 0)))"

definition cloneRepo :: "env \<Rightarrow> path \<Rightarrow> state \<Rightarrow> unit res \<times> state" where
  "cloneRepo e targetDir st =
     runCommand e ''git'' [''clone'', ''--depth'', ''1'', REPO_URL, render targetDir] (cwd e) st"

subsection \<open>init\<close>

definition rmSync :: "path \<Rightarrow> state \<Rightarrow> state" where
  "rmSync p st = emit (Rm p) (st\<lparr>fs := rmrf (fs st) p\<rparr>)"

text \<open>The loop of lines 185-188 over the names read from the target.\<close>

fun clearEntries :: "path \<Rightarrow> string list \<Rightarrow> state \<Rightarrow> state" where
  "clearEntries targetDir [] st = st"
| "clearEntries targetDir (entry # entries) st =
     (if entry = ''.git'' then clearEntries targetDir entries st
      else clearEntries targetDir entries (rmSync (targetDir @ [entry]) st))"

text \<open>
  A condition \<^verbatim>\<open>c && !isDirEmpty(targetDir)\<close>: the directory is read only when \<open>c\<close>
  holds, and reading it may throw.
\<close>

definition andNotEmpty :: "bool \<Rightarrow> node \<Rightarrow> path \<Rightarrow> errno + bool" where
  "andNotEmpty c root targetDir =
     (if c then (case isDirEmpty root targetDir of
                   Inl err \<Rightarrow> Inl err
                 | Inr isEmpty \<Rightarrow> Inr (\<not> isEmpty))
      else Inr False)"

definition notEmptyMessage :: "path \<Rightarrow> string" where
  "notEmptyMessage targetDir =
     ''Target directory is not empty. Use --force to continue: '' @ render targetDir @
     ''\<newline>''"

definition refusingMessage :: string where
  "refusingMessage =
     ''Refusing to overwrite current directory. Use an empty directory for init.\<newline>''"

text \<open>
  Lines 192-200, the body of the conditional of line 191: a clone into the target, or,
  for the current directory, a clone into a fresh temporary directory, a filtered copy
  from there and the removal of the temporary directory.
\<close>

definition materialize ::
  "nat \<Rightarrow> env \<Rightarrow> path \<Rightarrow> bool \<Rightarrow> state \<Rightarrow> (unit res \<times> state) option" where
  "materialize fuel e targetDir isCurrentDir st =
     (if \<not> isCurrentDir then Some (cloneRepo e targetDir st)
      else
        (case mkdtemp (fs st) (tmpdir e) ''webclaw-'' (suffixes e) of
           Inl err \<Rightarrow> Some (Throw err, st)
         | Inr (tempRoot, root') \<Rightarrow>
             (let st1 = emit (Mkdtemp tempRoot) (st\<lparr>fs := root'\<rparr>);
                  tempCloneDir = tempRoot @ [''repo'']
              in case cloneRepo e tempCloneDir st1 of
                   (Ok u, st2) \<Rightarrow>
                     (case copyDir fuel tempCloneDir targetDir st2 of
                        None \<Rightarrow> None
                      | Some (Ok u, st3) \<Rightarrow> Some (Ok (), rmSync tempRoot st3)
                      | Some (Exit n, st3) \<Rightarrow> Some (Exit n, st3)
                      | Some (Throw err, st3) \<Rightarrow> Some (Throw err, st3))
                 | (Exit n, st2) \<Rightarrow> Some (Exit n, st2)
                 | (Throw err, st2) \<Rightarrow> Some (Throw err, st2))))"

text \<open>Lines 203-207.\<close>

definition report :: "env \<Rightarrow> path \<Rightarrow> state \<Rightarrow> state" where
  "report e targetDir st =
     (let rel = relative (cwd e) targetDir in
      emit (Stdout ''  pnpm dev\<newline>\<newline>'')
        (emit (Stdout ''  pnpm install\<newline>'')
          (emit (Stdout (''  cd '' @ (if rel = [] then ''.'' else rel) @ ''\<newline>''))
            (emit (Stdout ''Next steps:\<newline>'')
              (emit (Stdout (''\<newline>WebClaw project created at '' @ render targetDir @
                  ''\<newline>\<newline>'')) st)))))"

text \<open>Lines 191-207: materialise when there is no \<^verbatim>\<open>.git\<close> and the target is empty, then report.\<close>

definition finishInit ::
  "nat \<Rightarrow> env \<Rightarrow> path \<Rightarrow> bool \<Rightarrow> state \<Rightarrow> (unit res \<times> state) option" where
  "finishInit fuel e targetDir isCurrentDir st =
     (if \<not> existsSync (fs st) (targetDir @ [''.git'']) then
        (case isDirEmpty (fs st) targetDir of
           Inl err \<Rightarrow> Some (Throw err, st)
         | Inr isEmpty \<Rightarrow>
             if isEmpty then
               (case materialize fuel e targetDir isCurrentDir st of
                  None \<Rightarrow> None
                | Some (Ok u, st') \<Rightarrow> Some (Ok (), report e targetDir st')
                | Some (Exit n, st') \<Rightarrow> Some (Exit n, st')
                | Some (Throw err, st') \<Rightarrow> Some (Throw err, st'))
             else Some (Ok (), report e targetDir st))
      else Some (Ok (), report e targetDir st))"

text \<open>Lines 184-189: with \<^verbatim>\<open>--force\<close>, clear a non-empty target that is not the current directory.\<close>

definition forceClear :: "bool \<Rightarrow> path \<Rightarrow> bool \<Rightarrow> state \<Rightarrow> unit res \<times> state" where
  "forceClear force targetDir isCurrentDir st =
     (case andNotEmpty force (fs st) targetDir of
        Inl err \<Rightarrow> (Throw err, st)
      | Inr nonEmpty \<Rightarrow>
          if nonEmpty \<and> \<not> isCurrentDir then
            (case readdirSync (fs st) targetDir of
               Inl err \<Rightarrow> (Throw err, st)
             | Inr names \<Rightarrow> (Ok (), clearEntries targetDir names st))
          else (Ok (), st))"

text \<open>
  \<^verbatim>\<open>initProject\<close> (lines 164-208): \<^verbatim>\<open>ensureDir\<close>, the guard of lines 170-175, the
  guard of lines 177-182, the clearing of lines 184-189, and the rest. The fuel is what
  the copy of the staging path may use; every other path through the function returns
  whatever the fuel.
\<close>

definition initProject ::
  "nat \<Rightarrow> env \<Rightarrow> string option \<Rightarrow> string set \<Rightarrow> state \<Rightarrow> (unit res \<times> state) option" where
  "initProject fuel e rawTarget options st =
     (let targetDir = resolve (cwd e) (case rawTarget of None \<Rightarrow> ''.'' | Some r \<Rightarrow> r);
          force = (''--force'' \<in> options);
          isCurrentDir = (targetDir = cwd e)
      in case ensureDir targetDir st of
           (Exit n, st1) \<Rightarrow> Some (Exit n, st1)
         | (Throw err, st1) \<Rightarrow> Some (Throw err, st1)
         | (Ok u, st1) \<Rightarrow>
             (case andNotEmpty (\<not> force) (fs st1) targetDir of
                Inl err \<Rightarrow> Some (Throw err, st1)
              | Inr True \<Rightarrow> Some (Exit 1, emit (Stderr (notEmptyMessage targetDir)) st1)
              | Inr False \<Rightarrow>
                  (case andNotEmpty force (fs st1) targetDir of
                     Inl err \<Rightarrow> Some (Throw err, st1)
                   | Inr nonEmpty \<Rightarrow>
                       if nonEmpty \<and> isCurrentDir
                       then Some (Exit 1, emit (Stderr refusingMessage) st1)
                       else
                         (case forceClear force targetDir isCurrentDir st1 of
                            (Ok u, st2) \<Rightarrow> finishInit fuel e targetDir isCurrentDir st2
                          | (Exit n, st2) \<Rightarrow> Some (Exit n, st2)
                          | (Throw err, st2) \<Rightarrow> Some (Throw err, st2)))))"

subsection \<open>doctor, help and main\<close>

definition doctor :: "env \<Rightarrow> state \<Rightarrow> unit res \<times> state" where
  "doctor e st =
     (case spawn e ''pnpm'' [''--version''] (cwd e) (fs st) of
        (result, root') \<Rightarrow>
          (let st1 = emit (Spawn ''pnpm'' [''--version''] (cwd e)) (st\<lparr>fs := root'\<rparr>);
               hasPnpm = (result = Status 0);
               issues = (if nodeMajor e < 20 then [''Node.js >= 20 is required.''] else []) @
                        (if \<not> hasPnpm
                         then [''pnpm is recommended but was not found in PATH.'']
                         else [])
           in if length issues = 0
              then (Ok (), emit (Stdout ''Environment looks good.\<newline>'') st1)
              else (Exit 1,
                    fold (\<lambda>issue. emit (Stderr (''- '' @ issue @ ''\<newline>''))) issues st1)))"

definition helpLines :: "string list" where
  "helpLines =
     [''webclaw CLI\<newline>\<newline>'',
      ''Usage:\<newline>'',
      ''  webclaw                 Initialize in current directory\<newline>'',
      ''  webclaw init [dir]      Initialize a new project\<newline>'',
      ''  webclaw dev             Run development server\<newline>'',
      ''  webclaw build           Build project\<newline>'',
      ''  webclaw preview         Preview production build\<newline>'',
      ''  webclaw test            Run tests\<newline>'',
      ''  webclaw lint            Run lint\<newline>'',
      ''  webclaw doctor          Validate local setup\<newline>'',
      ''\<newline>Options:\<newline>'',
      ''  --force                 Allow init in non-empty directory\<newline>'',
      ''  -h, --help              Show help\<newline>'']"

definition printHelp :: "state \<Rightarrow> state" where
  "printHelp st = fold (\<lambda>line. emit (Stdout line)) helpLines st"

definition startsWithDash :: "string \<Rightarrow> bool" where
  "startsWithDash arg = (case arg of [] \<Rightarrow> False | x # xs \<Rightarrow> x = CHR ''-'')"

text \<open>
  The \<^verbatim>\<open>args.find\<close> of lines 249-253: the first argument that is not a flag and whose
  predecessor is \<^verbatim>\<open>init\<close>. At index 0 the predecessor \<^verbatim>\<open>args[-1]\<close> is \<^verbatim>\<open>undefined\<close>,
  which is not \<^verbatim>\<open>init\<close>.
\<close>

definition findTarget :: "string list \<Rightarrow> string option" where
  "findTarget args =
     (case filter (\<lambda>index. \<not> startsWithDash (args ! index) \<and>
                            index \<noteq> 0 \<and> args ! (index - 1) = ''init'')
             [0 ..< length args] of
        [] \<Rightarrow> None
      | index # rest \<Rightarrow> Some (args ! index))"

text \<open>
  \<^verbatim>\<open>main\<close> (lines 233-277). \<^verbatim>\<open>!command\<close> holds when there is no positional argument and
  when the first one is the empty string.
\<close>

definition main :: "nat \<Rightarrow> env \<Rightarrow> state \<Rightarrow> (unit res \<times> state) option" where
  "main fuel e st =
     (let args = drop 2 (argv e);
          options = set (filter startsWithDash args);
          command = find (\<lambda>arg. \<not> startsWithDash arg) args
      in if ''-h'' \<in> options \<or> ''--help'' \<in> options then Some (Ok (), printHelp st)
         else
           (case command of
              None \<Rightarrow> initProject fuel e (Some ''.'') options st
            | Some c \<Rightarrow>
                if c = [] then initProject fuel e (Some ''.'') options st
                else if c = ''init'' then initProject fuel e (findTarget args) options st
                else if c = ''doctor'' then Some (doctor e st)
                else if c = ''dev'' \<or> c = ''build'' \<or> c = ''preview'' \<or> c = ''test'' \<or>
                        c = ''lint''
                then Some (runProjectScript e c st)
                else Some (Exit 1,
                           printHelp (emit (Stderr (''Unknown command: '' @ c @
                             ''\<newline>\<newline>'')) st))))"

subsection \<open>Events of materialisation\<close>

text \<open>
  The events that bring the template to the target: a child process, a copied file, a
  created directory. Writes to the streams and removals are not among them.
\<close>

fun materializes :: "event \<Rightarrow> bool" where
  "materializes (Spawn command args dir) = True"
| "materializes (CopyFile src dst) = True"
| "materializes (Mkdtemp p) = True"
| "materializes (Mkdir p) = True"
| "materializes (Stdout s) = False"
| "materializes (Stderr s) = False"
| "materializes (Rm p) = False"

subsection \<open>A sample environment\<close>

text \<open>
  A small file system and two child-process behaviours, for running the definitions
  on concrete inputs. \<open>sampleSpawn\<close> lets \<^verbatim>\<open>git clone ... dst\<close> write a tiny template
  (with its own \<^verbatim>\<open>.git\<close> and a nested \<^verbatim>\<open>node_modules\<close>) to \<open>dst\<close> and lets every
  other command end with status 2.
\<close>

fun applyAll :: "(node \<Rightarrow> errno + node) list \<Rightarrow> node \<Rightarrow> node option" where
  "applyAll [] root = Some root"
| "applyAll (w # ws) root = (case w root of Inl err \<Rightarrow> None | Inr root' \<Rightarrow> applyAll ws root')"

definition sampleSpawn :: "string \<Rightarrow> string list \<Rightarrow> path \<Rightarrow> node \<Rightarrow> spawn_result \<times> node" where
  "sampleSpawn command args dir root =
     (if command = ''git'' \<and> args \<noteq> [] then
        (let dst = resolve dir (last args) in
         case applyAll
                [\<lambda>r. mkdirp r (dst @ [''.git'']),
                 \<lambda>r. writeFile r (dst @ [''.git'', ''HEAD'']) ''ref: refs/heads/main'',
                 \<lambda>r. writeFile r (dst @ [''README.md'']) ''# webclaw'',
                 \<lambda>r. mkdirp r (dst @ [''src'', ''node_modules'']),
                 \<lambda>r. writeFile r (dst @ [''src'', ''main.ts'']) ''export {}''] root of
           None \<Rightarrow> (Status 128, root)
         | Some root' \<Rightarrow> (Status 0, root'))
      else (Status 2, root))"

definition sampleRoot :: node where
  "sampleRoot =
     Dir [(''tmp'', Dir []),
          (''home'',
           Dir [(''work'', Dir [(''notes.txt'', File ''todo''), (''.git'', Dir [])]),
                (''fresh'', Dir [(''.DS_Store'', File [])]),
                (''app'',
                 Dir [(''package.json'', File ''{}''),
                      (''pnpm-lock.yaml'', File []),
                      (''yarn.lock'', File [])]),
                (''legacy'', Dir [(''yarn.lock'', File [])])])]"

definition sampleState :: state where
  "sampleState = \<lparr>fs = sampleRoot, trace = []\<rparr>"

definition sampleEnv :: "path \<Rightarrow> string list \<Rightarrow> env" where
  "sampleEnv dir args =
     \<lparr>cwd = dir, argv = ''node'' # ''webclaw'' # args, tmpdir = [''tmp''],
      suffixes = [''a1B2c3''], nodeMajor = 22, spawn = sampleSpawn\<rparr>"

text \<open>
  The state a first \<^verbatim>\<open>webclaw init new\<close>, run in \<^verbatim>\<open>/home\<close> on the sample state, leaves
  behind: the clone with its \<^verbatim>\<open>.git\<close> in \<^verbatim>\<open>/home/new\<close>.
\<close>

definition afterFirstRun :: state where
  "afterFirstRun =
     \<lparr>fs =
        Dir [(''tmp'', Dir []),
             (''home'',
              Dir [(''work'', Dir [(''notes.txt'', File ''todo''), (''.git'', Dir [])]),
                   (''fresh'', Dir [(''.DS_Store'', File [])]),
                   (''app'',
                    Dir [(''package.json'', File ''{}''),
                         (''pnpm-lock.yaml'', File []),
                         (''yarn.lock'', File [])]),
                   (''legacy'', Dir [(''yarn.lock'', File [])]),
                   (''new'',
                    Dir [(''.git'', Dir [(''HEAD'', File ''ref: refs/heads/main'')]),
                         (''README.md'', File ''# webclaw''),
                         (''src'',
                          Dir [(''node_modules'', Dir []),
                               (''main.ts'', File ''export {}'')])])])],
      trace =
        [Mkdir [''home'', ''new''],
         Spawn ''git'' [''clone'', ''--depth'', ''1'', REPO_URL, ''/home/new''] [''home''],
         Stdout ''\<newline>WebClaw project created at /home/new\<newline>\<newline>'',
         Stdout ''Next steps:\<newline>'',
         Stdout ''  cd new\<newline>'',
         Stdout ''  pnpm install\<newline>'',
         Stdout ''  pnpm dev\<newline>\<newline>'']\<rparr>"

subsection \<open>Paths a copy may create\<close>

text \<open>A relative path none of whose components is a name \<^verbatim>\<open>copyDir\<close> skips.\<close>

definition clean :: "path \<Rightarrow> bool" where
  "clean rel = list_all (\<lambda>name. \<not> skipped name) rel"

text \<open>
  The paths a copy into \<open>t\<close> may bring into being: \<open>t\<close> and its ancestors (by
  \<^verbatim>\<open>mkdirSync\<close>), and paths below \<open>t\<close> that are clean relative to it.
\<close>

definition covered :: "path \<Rightarrow> path \<Rightarrow> bool" where
  "covered t q = (prefix q t \<or> (prefix t q \<and> clean (drop (length t) q)))"

text \<open>
  The size of the tree at a path (0 when there is none): a bound on the levels of
  recursion a copy from there needs.
\<close>

definition weight :: "node \<Rightarrow> path \<Rightarrow> nat" where
  "weight root p = (case lookup root p of None \<Rightarrow> 0 | Some n \<Rightarrow> size n)"

text \<open>
  The sample run of \<^verbatim>\<open>webclaw\<close> in the empty directory \<^verbatim>\<open>/home/fresh\<close>: the temporary
  directory \<^verbatim>\<open>mkdtempSync\<close> makes, and the state right after the clone into it.
\<close>

definition stagedTemp :: "path \<times> node" where
  "stagedTemp =
     (case mkdtemp sampleRoot [''tmp''] ''webclaw-'' [''a1B2c3''] of
        Inr made \<Rightarrow> made
      | Inl err \<Rightarrow> ([], sampleRoot))"

definition stagedClone :: state where
  "stagedClone =
     snd (cloneRepo (sampleEnv [''home'', ''fresh''] []) (fst stagedTemp @ [''repo''])
            (emit (Mkdtemp (fst stagedTemp)) (sampleState\<lparr>fs := snd stagedTemp\<rparr>)))"

definition afterStagedRun :: state where
  "afterStagedRun =
     (case initProject 3 (sampleEnv [''home'', ''fresh''] []) None {} sampleState of
        Some (r, st') \<Rightarrow> st'
      | None \<Rightarrow> sampleState)"

section \<open>Properties\<close>

subsection \<open>Basic facts\<close>

lemma lookup_append:
  "lookup root (p @ q) = (case lookup root p of None \<Rightarrow> None | Some n \<Rightarrow> lookup n q)"
proof (induction p arbitrary: root)
  case Nil
  show ?case by simp
next
  case (Cons d ds)
  show ?case
  proof (cases root)
    case (File c)
    then show ?thesis by simp
  next
    case (Dir es)
    then show ?thesis using Cons.IH by (simp split: option.splits)
  qed
qed

lemma emit_simps [simp]:
  "fs (emit ev st) = fs st" "trace (emit ev st) = trace st @ [ev]"
  by (simp_all add: emit_def)

lemma isDirEmpty_missing: "lookup root d = None \<Longrightarrow> isDirEmpty root d = Inr True"
  by (simp add: isDirEmpty_def existsSync_def)

lemma isDirEmpty_Dir:
  "lookup root d = Some (Dir es) \<Longrightarrow>
   isDirEmpty root d = Inr (\<forall>name \<in> set (map fst es). name = ''.git'' \<or> name = ''.DS_Store'')"
  by (auto simp add: isDirEmpty_def existsSync_def readdirSync_def filter_empty_conv)

lemma isDirEmpty_False_Dir:
  "isDirEmpty root d = Inr False \<Longrightarrow> \<exists>es. lookup root d = Some (Dir es)"
  by (cases "lookup root d") (auto simp add: isDirEmpty_def existsSync_def readdirSync_def split: node.splits)

lemma ensureDir_exists:
  "lookup (fs st) d \<noteq> None \<Longrightarrow> ensureDir d st = (Ok (), st)"
  by (simp add: ensureDir_def existsSync_def)

subsection \<open>Package manager detection\<close>

text \<open>
  C6. \<^verbatim>\<open>detectPackageManager\<close> always returns one of \<^verbatim>\<open>pnpm\<close>, \<^verbatim>\<open>yarn\<close>, \<^verbatim>\<open>npm\<close>:
  \<^verbatim>\<open>pnpm\<close> when \<^verbatim>\<open>pnpm-lock.yaml\<close> exists, \<^verbatim>\<open>yarn\<close> when it does not and \<^verbatim>\<open>yarn.lock\<close>
  exists, \<^verbatim>\<open>npm\<close> when neither exists.
\<close>

theorem detectPackageManager_precedence:
  "detectPackageManager root dir \<in> {''pnpm'', ''yarn'', ''npm''} \<and>
   (existsSync root (dir @ [''pnpm-lock.yaml'']) \<longrightarrow> detectPackageManager root dir = ''pnpm'') \<and>
   (\<not> existsSync root (dir @ [''pnpm-lock.yaml'']) \<and> existsSync root (dir @ [''yarn.lock'']) \<longrightarrow>
      detectPackageManager root dir = ''yarn'') \<and>
   (\<not> existsSync root (dir @ [''pnpm-lock.yaml'']) \<and> \<not> existsSync root (dir @ [''yarn.lock'']) \<longrightarrow>
      detectPackageManager root dir = ''npm'')"
  by (simp add: detectPackageManager_def)

theorem detectPackageManager_precedence_witness:
  "existsSync sampleRoot ([''home'', ''app''] @ [''pnpm-lock.yaml'']) \<and>
   existsSync sampleRoot ([''home'', ''app''] @ [''yarn.lock'']) \<and>
   detectPackageManager sampleRoot [''home'', ''app''] = ''pnpm'' \<and>
   \<not> existsSync sampleRoot ([''home'', ''legacy''] @ [''pnpm-lock.yaml'']) \<and>
   existsSync sampleRoot ([''home'', ''legacy''] @ [''yarn.lock'']) \<and>
   detectPackageManager sampleRoot [''home'', ''legacy''] = ''yarn'' \<and>
   \<not> existsSync sampleRoot ([''home'', ''work''] @ [''pnpm-lock.yaml'']) \<and>
   \<not> existsSync sampleRoot ([''home'', ''work''] @ [''yarn.lock'']) \<and>
   detectPackageManager sampleRoot [''home'', ''work''] = ''npm''"
proof -
  have a: "existsSync sampleRoot ([''home'', ''app''] @ [''pnpm-lock.yaml''])"
    "existsSync sampleRoot ([''home'', ''app''] @ [''yarn.lock''])"
    "\<not> existsSync sampleRoot ([''home'', ''legacy''] @ [''pnpm-lock.yaml''])"
    "existsSync sampleRoot ([''home'', ''legacy''] @ [''yarn.lock''])"
    "\<not> existsSync sampleRoot ([''home'', ''work''] @ [''pnpm-lock.yaml''])"
    "\<not> existsSync sampleRoot ([''home'', ''work''] @ [''yarn.lock''])"
    by (simp_all add: sampleRoot_def existsSync_def)
  show ?thesis
    using detectPackageManager_precedence[of sampleRoot "[''home'', ''app'']"]
      detectPackageManager_precedence[of sampleRoot "[''home'', ''legacy'']"]
      detectPackageManager_precedence[of sampleRoot "[''home'', ''work'']"] a
    by blast
qed

subsection \<open>The guards of init\<close>

text \<open>
  C1. With \<^verbatim>\<open>--force\<close>, when the resolved target is the current working directory
  and is not empty, \<^verbatim>\<open>initProject\<close> writes the refusal to standard error and ends the
  process with status 1, whatever else the options and the state hold. The state it
  leaves is the state it found plus that one line: nothing was spawned, copied, created
  or removed.
\<close>

theorem init_force_current_dir_refused:
  assumes "''--force'' \<in> options"
    and "resolve (cwd e) (case rawTarget of None \<Rightarrow> ''.'' | Some r \<Rightarrow> r) = cwd e"
    and "isDirEmpty (fs st) (cwd e) = Inr False"
  shows "initProject fuel e rawTarget options st =
           Some (Exit 1, emit (Stderr refusingMessage) st)"
proof -
  from assms(3) obtain es where "lookup (fs st) (cwd e) = Some (Dir es)"
    using isDirEmpty_False_Dir by blast
  then have "ensureDir (cwd e) st = (Ok (), st)"
    by (simp add: ensureDir_exists)
  then show ?thesis
    using assms by (simp add: initProject_def andNotEmpty_def)
qed

theorem init_force_current_dir_refused_witness:
  "''--force'' \<in> {''--force''} \<and>
   resolve (cwd (sampleEnv [''home'', ''work''] [])) ''.'' = cwd (sampleEnv [''home'', ''work''] []) \<and>
   isDirEmpty (fs sampleState) (cwd (sampleEnv [''home'', ''work''] [])) = Inr False \<and>
   initProject 0 (sampleEnv [''home'', ''work''] []) None {''--force''} sampleState =
     Some (Exit 1, emit (Stderr refusingMessage) sampleState)"
proof -
  have a: "''--force'' \<in> {''--force''}" by simp
  have b: "resolve (cwd (sampleEnv [''home'', ''work''] [])) (case None of None \<Rightarrow> ''.'' | Some r \<Rightarrow> r) =
           cwd (sampleEnv [''home'', ''work''] [])"
    by (simp add: resolve_def)
  have c: "isDirEmpty (fs sampleState) (cwd (sampleEnv [''home'', ''work''] [])) = Inr False"
    by code_simp
  show ?thesis
    using init_force_current_dir_refused[OF a b c, of 0] a b c by simp
qed

text \<open>
  C2. Without \<^verbatim>\<open>--force\<close>, when the resolved target is an existing directory that
  \<^verbatim>\<open>isDirEmpty\<close> classifies as not empty (so one that holds more than \<^verbatim>\<open>.git\<close> and
  \<^verbatim>\<open>.DS_Store\<close>), \<^verbatim>\<open>initProject\<close> reports on standard error that the target is not
  empty and ends the process with status 1. The file system is the one it found, and
  the only event is the line on standard error: no write to the target.
\<close>

theorem init_nonempty_without_force:
  assumes "''--force'' \<notin> options"
    and "targetDir = resolve (cwd e) (case rawTarget of None \<Rightarrow> ''.'' | Some r \<Rightarrow> r)"
    and "isDirEmpty (fs st) targetDir = Inr False"
  shows "initProject fuel e rawTarget options st =
           Some (Exit 1, emit (Stderr (notEmptyMessage targetDir)) st)"
proof -
  from assms(3) obtain es where "lookup (fs st) targetDir = Some (Dir es)"
    using isDirEmpty_False_Dir by blast
  then have "ensureDir targetDir st = (Ok (), st)"
    by (simp add: ensureDir_exists)
  then show ?thesis
    using assms by (simp add: initProject_def andNotEmpty_def)
qed

theorem init_nonempty_without_force_witness:
  "''--force'' \<notin> {} \<and>
   resolve (cwd (sampleEnv [''home''] [])) ''work'' = [''home'', ''work''] \<and>
   isDirEmpty (fs sampleState) [''home'', ''work''] = Inr False \<and>
   initProject 0 (sampleEnv [''home''] []) (Some ''work'') {} sampleState =
     Some (Exit 1, emit (Stderr (notEmptyMessage [''home'', ''work''])) sampleState)"
proof -
  have a: "''--force'' \<notin> {}" by simp
  have b: "[''home'', ''work''] =
     resolve (cwd (sampleEnv [''home''] [])) (case Some ''work'' of None \<Rightarrow> ''.'' | Some r \<Rightarrow> r)"
    by code_simp
  have c: "isDirEmpty (fs sampleState) [''home'', ''work''] = Inr False"
    by code_simp
  show ?thesis
    using init_nonempty_without_force[OF a b c, of 0] a b c by simp
qed

subsection \<open>Forwarding\<close>

lemma main_forwards:
  assumes "find (\<lambda>arg. \<not> startsWithDash arg) (drop 2 (argv e)) = Some scriptName"
    and "scriptName \<in> {''dev'', ''build'', ''preview'', ''test'', ''lint''}"
    and "''-h'' \<notin> set (drop 2 (argv e))" "''--help'' \<notin> set (drop 2 (argv e))"
  shows "main fuel e st = Some (runProjectScript e scriptName st)"
  using assms unfolding main_def Let_def by auto

text \<open>
  C7. When \<^verbatim>\<open>detectProjectRoot\<close> finds no project in the current directory,
  \<^verbatim>\<open>runProjectScript\<close> writes the diagnostic to standard error and ends the process with
  status 1; the state is otherwise untouched, so no process was spawned. The same holds
  for \<^verbatim>\<open>main\<close> when the first positional argument is one of \<^verbatim>\<open>dev\<close>, \<^verbatim>\<open>build\<close>,
  \<^verbatim>\<open>preview\<close>, \<^verbatim>\<open>test\<close>, \<^verbatim>\<open>lint\<close> and no help flag is given.
\<close>

theorem forward_without_project:
  assumes "detectProjectRoot (fs st) (cwd e) = None"
  shows "runProjectScript e scriptName st = (Exit 1, emit (Stderr noProjectMessage) st) \<and>
         (find (\<lambda>arg. \<not> startsWithDash arg) (drop 2 (argv e)) = Some scriptName \<and>
          scriptName \<in> {''dev'', ''build'', ''preview'', ''test'', ''lint''} \<and>
          ''-h'' \<notin> set (drop 2 (argv e)) \<and> ''--help'' \<notin> set (drop 2 (argv e)) \<longrightarrow>
          main fuel e st = Some (Exit 1, emit (Stderr noProjectMessage) st))"
proof -
  have run: "runProjectScript e scriptName st = (Exit 1, emit (Stderr noProjectMessage) st)"
    using assms by (simp add: runProjectScript_def)
  then show ?thesis using main_forwards[of e scriptName fuel st] by simp
qed

theorem forward_without_project_witness:
  "detectProjectRoot (fs sampleState) (cwd (sampleEnv [''home'', ''work''] [''test''])) = None \<and>
   find (\<lambda>arg. \<not> startsWithDash arg) (drop 2 (argv (sampleEnv [''home'', ''work''] [''test''])))
     = Some ''test'' \<and>
   runProjectScript (sampleEnv [''home'', ''work''] [''test'']) ''test'' sampleState =
     (Exit 1, emit (Stderr noProjectMessage) sampleState) \<and>
   main 0 (sampleEnv [''home'', ''work''] [''test'']) sampleState =
     Some (Exit 1, emit (Stderr noProjectMessage) sampleState)"
proof -
  have a: "detectProjectRoot (fs sampleState) (cwd (sampleEnv [''home'', ''work''] [''test''])) = None"
    by code_simp
  have b: "find (\<lambda>arg. \<not> startsWithDash arg) (drop 2 (argv (sampleEnv [''home'', ''work''] [''test''])))
     = Some ''test''"
    by code_simp
  have c: "''-h'' \<notin> set (drop 2 (argv (sampleEnv [''home'', ''work''] [''test''])))"
    "''--help'' \<notin> set (drop 2 (argv (sampleEnv [''home'', ''work''] [''test''])))"
    by (simp_all add: sampleEnv_def)
  show ?thesis
    using forward_without_project[OF a, of "''test''" 0] a b c by simp
qed

lemma runProjectScript_runCommand:
  assumes "detectProjectRoot (fs st) (cwd e) = Some d"
  shows "\<exists>command args dir. runProjectScript e scriptName st = runCommand e command args dir st"
  using assms unfolding runProjectScript_def Let_def by (auto split: if_splits)

text \<open>
  C8. A child that ends with a non-zero status \<open>n\<close> makes \<^verbatim>\<open>runCommand\<close> end the
  process with status \<open>n\<close>. In a detected project \<^verbatim>\<open>runProjectScript\<close> spawns exactly one
  child, and when that child ends with a non-zero status the exit status of the script
  is that status. \<^verbatim>\<open>main\<close> forwards \<^verbatim>\<open>dev\<close>, \<^verbatim>\<open>build\<close>, \<^verbatim>\<open>preview\<close>, \<^verbatim>\<open>test\<close> and
  \<^verbatim>\<open>lint\<close> to \<^verbatim>\<open>runProjectScript\<close> and ends as it ends.
\<close>

theorem child_status_propagates:
  "(spawn e command args dir (fs st) = (Status n, root') \<and> n \<noteq> 0 \<longrightarrow>
      runCommand e command args dir st =
        (Exit n, emit (Spawn command args dir) (st\<lparr>fs := root'\<rparr>))) \<and>
   (detectProjectRoot (fs st) (cwd e) \<noteq> None \<longrightarrow>
      (\<exists>child childArgs childDir.
          trace (snd (runProjectScript e scriptName st)) =
            trace st @ [Spawn child childArgs childDir] \<and>
          (\<forall>m root''. spawn e child childArgs childDir (fs st) = (Status m, root'') \<and> m \<noteq> 0 \<longrightarrow>
             fst (runProjectScript e scriptName st) = Exit m \<and>
             exit_status (fst (runProjectScript e scriptName st)) = m))) \<and>
   (find (\<lambda>arg. \<not> startsWithDash arg) (drop 2 (argv e)) = Some scriptName \<and>
    scriptName \<in> {''dev'', ''build'', ''preview'', ''test'', ''lint''} \<and>
    ''-h'' \<notin> set (drop 2 (argv e)) \<and> ''--help'' \<notin> set (drop 2 (argv e)) \<longrightarrow>
      main fuel e st = Some (runProjectScript e scriptName st))"
proof -
  have rc: "runCommand e c a d st = (Exit m, emit (Spawn c a d) (st\<lparr>fs := r\<rparr>))"
    if "spawn e c a d (fs st) = (Status m, r)" "m \<noteq> 0" for c a d m r
    using that by (simp add: runCommand_def Let_def)
  have tr: "trace (snd (runCommand e c a d st)) = trace st @ [Spawn c a d]" for c a d
    by (cases "spawn e c a d (fs st)")
       (simp add: runCommand_def Let_def split: spawn_result.splits)
  have fwd: "\<exists>child childArgs childDir.
          trace (snd (runProjectScript e scriptName st)) =
            trace st @ [Spawn child childArgs childDir] \<and>
          (\<forall>m root''. spawn e child childArgs childDir (fs st) = (Status m, root'') \<and> m \<noteq> 0 \<longrightarrow>
             fst (runProjectScript e scriptName st) = Exit m \<and>
             exit_status (fst (runProjectScript e scriptName st)) = m)"
    if "detectProjectRoot (fs st) (cwd e) \<noteq> None"
  proof -
    from that obtain d where "detectProjectRoot (fs st) (cwd e) = Some d" by blast
    then obtain c a dir where run: "runProjectScript e scriptName st = runCommand e c a dir st"
      using runProjectScript_runCommand by blast
    have "fst (runProjectScript e scriptName st) = Exit m \<and>
          exit_status (fst (runProjectScript e scriptName st)) = m"
      if "spawn e c a dir (fs st) = (Status m, r)" "m \<noteq> 0" for m r
      using rc[OF that] run by simp
    then show ?thesis using tr[of c a dir] run by auto
  qed
  have "main fuel e st = Some (runProjectScript e scriptName st)"
    if "find (\<lambda>arg. \<not> startsWithDash arg) (drop 2 (argv e)) = Some scriptName"
      "scriptName \<in> {''dev'', ''build'', ''preview'', ''test'', ''lint''}"
      "''-h'' \<notin> set (drop 2 (argv e))" "''--help'' \<notin> set (drop 2 (argv e))"
    using that by (rule main_forwards)
  then show ?thesis using rc fwd by blast
qed

theorem child_status_propagates_witness:
  "spawn (sampleEnv [''home'', ''app''] [''test'']) ''pnpm'' [''run'', ''test''] [''home'', ''app'']
     (fs sampleState) = (Status 2, sampleRoot) \<and>
   (2::int) \<noteq> 0 \<and>
   runCommand (sampleEnv [''home'', ''app''] [''test'']) ''pnpm'' [''run'', ''test'']
     [''home'', ''app''] sampleState =
     (Exit 2, emit (Spawn ''pnpm'' [''run'', ''test''] [''home'', ''app''])
                (sampleState\<lparr>fs := sampleRoot\<rparr>)) \<and>
   detectProjectRoot (fs sampleState) (cwd (sampleEnv [''home'', ''app''] [''test''])) \<noteq> None \<and>
   trace (snd (runProjectScript (sampleEnv [''home'', ''app''] [''test'']) ''test'' sampleState)) =
     trace sampleState @ [Spawn ''pnpm'' [''run'', ''test''] [''home'', ''app'']] \<and>
   fst (runProjectScript (sampleEnv [''home'', ''app''] [''test'']) ''test'' sampleState) = Exit 2 \<and>
   find (\<lambda>arg. \<not> startsWithDash arg) (drop 2 (argv (sampleEnv [''home'', ''app''] [''test''])))
     = Some ''test'' \<and>
   main 0 (sampleEnv [''home'', ''app''] [''test'']) sampleState =
     Some (runProjectScript (sampleEnv [''home'', ''app''] [''test'']) ''test'' sampleState)"
proof -
  let ?e = "sampleEnv [''home'', ''app''] [''test'']"
  have a: "spawn ?e ''pnpm'' [''run'', ''test''] [''home'', ''app''] (fs sampleState) =
      (Status 2, sampleRoot)"
    by (simp add: sampleEnv_def sampleSpawn_def sampleState_def)
  have n: "(2::int) \<noteq> 0" by simp
  have b: "detectProjectRoot (fs sampleState) (cwd ?e) \<noteq> None" by code_simp
  have c: "find (\<lambda>arg. \<not> startsWithDash arg) (drop 2 (argv ?e)) = Some ''test''" by code_simp
  have s: "''test'' \<in> {''dev'', ''build'', ''preview'', ''test'', ''lint''}" by simp
  have h: "''-h'' \<notin> set (drop 2 (argv ?e))" "''--help'' \<notin> set (drop 2 (argv ?e))"
    by (simp_all add: sampleEnv_def)
  have t: "trace (snd (runProjectScript ?e ''test'' sampleState)) =
      trace sampleState @ [Spawn ''pnpm'' [''run'', ''test''] [''home'', ''app'']]"
    by code_simp
  note T = child_status_propagates[of ?e "''pnpm''" "[''run'', ''test'']" "[''home'', ''app'']"
      sampleState 2 sampleRoot "''test''" 0]
  have r1: "runCommand ?e ''pnpm'' [''run'', ''test''] [''home'', ''app''] sampleState =
     (Exit 2, emit (Spawn ''pnpm'' [''run'', ''test''] [''home'', ''app''])
                (sampleState\<lparr>fs := sampleRoot\<rparr>))"
    using T[THEN conjunct1, THEN mp, OF conjI[OF a n]] .
  from T[THEN conjunct2, THEN conjunct1, THEN mp, OF b] obtain child childArgs childDir where
    ch: "trace (snd (runProjectScript ?e ''test'' sampleState)) =
           trace sampleState @ [Spawn child childArgs childDir]"
      "\<forall>m root''. spawn ?e child childArgs childDir (fs sampleState) = (Status m, root'') \<and> m \<noteq> 0 \<longrightarrow>
         fst (runProjectScript ?e ''test'' sampleState) = Exit m \<and>
         exit_status (fst (runProjectScript ?e ''test'' sampleState)) = m"
    by blast
  from ch(1) t have "child = ''pnpm''" "childArgs = [''run'', ''test'']" "childDir = [''home'', ''app'']"
    by simp_all
  then have r2: "fst (runProjectScript ?e ''test'' sampleState) = Exit 2"
    using ch(2) a n by blast
  have r3: "main 0 ?e sampleState = Some (runProjectScript ?e ''test'' sampleState)"
    using T[THEN conjunct2, THEN conjunct2, THEN mp, OF conjI[OF c conjI[OF s conjI[OF h]]]] .
  show ?thesis
    by (intro conjI) (fact a n r1 b t r2 c r3)+
qed

subsection \<open>The arguments of init\<close>

lemma resolve_dot: "resolve c ''.'' = c"
  by (simp add: resolve_def)

lemma init_not_dash: "\<not> startsWithDash ''init''"
  by (simp add: startsWithDash_def)

lemma findTarget_flag_between:
  assumes "args = pre @ [''init''] @ flags @ [dir]"
    and pre: "\<forall>a \<in> set pre. startsWithDash a"
    and ne: "flags \<noteq> []"
    and fl: "\<forall>a \<in> set flags. startsWithDash a"
  shows "findTarget args = None"
proof -
  have "\<not> (\<not> startsWithDash (args ! i) \<and> i \<noteq> 0 \<and> args ! (i - 1) = ''init'')"
    if i: "i < length args" for i
  proof
    assume a: "\<not> startsWithDash (args ! i) \<and> i \<noteq> 0 \<and> args ! (i - 1) = ''init''"
    then have i0: "i \<noteq> 0" and prev: "args ! (i - 1) = ''init''" and nd: "\<not> startsWithDash (args ! i)"
      by auto
    have len: "length args = length pre + 1 + length flags + 1" using assms(1) by simp
    consider (a) "i - 1 < length pre" | (b) "i - 1 = length pre"
      | (c) "length pre < i - 1" "i - 1 < length pre + 1 + length flags"
      | (d) "i - 1 \<ge> length pre + 1 + length flags" by linarith
    then show False
    proof cases
      case a
      then have "args ! (i - 1) = pre ! (i - 1)" using assms(1) by (simp add: nth_append)
      then have "startsWithDash (args ! (i - 1))" using pre a by simp
      then show False using prev init_not_dash by simp
    next
      case b
      then have "i = length pre + 1" using i0 by simp
      then have "args ! i = flags ! 0" using assms(1) ne by (simp add: nth_append)
      then have "startsWithDash (args ! i)" using fl ne by simp
      then show False using nd by simp
    next
      case c
      then obtain m where m: "i - 1 = length pre + 1 + m" "m < length flags"
        by (metis add.commute add_Suc_right less_iff_Suc_add nat_add_left_cancel_less plus_1_eq_Suc)
      have "args ! (length pre + 1 + m) = flags ! m"
        using assms(1) m(2) by (simp add: nth_append)
      then have "startsWithDash (args ! (i - 1))" using fl m by simp
      then show False using prev init_not_dash by simp
    next
      case d
      then show False using i i0 len by linarith
    qed
  qed
  then have "filter (\<lambda>index. \<not> startsWithDash (args ! index) \<and> index \<noteq> 0 \<and>
                args ! (index - 1) = ''init'') [0 ..< length args] = []"
    by (simp add: filter_empty_conv)
  then show ?thesis by (simp add: findTarget_def)
qed

lemma find_first_positional:
  assumes "\<forall>a \<in> set pre. startsWithDash a" "\<not> startsWithDash c"
  shows "find (\<lambda>arg. \<not> startsWithDash arg) (pre @ c # rest) = Some c"
  using assms by (induction pre) auto

text \<open>
  C9. For arguments \<^verbatim>\<open>init <flags> <dir>\<close> with at least one flag between \<^verbatim>\<open>init\<close> and
  the directory (and only flags before \<^verbatim>\<open>init\<close>), the search for the target finds
  nothing: \<^verbatim>\<open>main\<close> calls \<^verbatim>\<open>initProject\<close> with an undefined target, which resolves to
  the current working directory. (When one of the flags is a help flag \<^verbatim>\<open>main\<close> prints
  the help instead; the directory is not used then either.)
\<close>

theorem init_flag_then_dir_ignored:
  assumes args: "drop 2 (argv e) = pre @ [''init''] @ flags @ [dir]"
    and pre: "\<forall>a \<in> set pre. startsWithDash a"
    and ne: "flags \<noteq> []"
    and fl: "\<forall>a \<in> set flags. startsWithDash a"
    and dir: "\<not> startsWithDash dir"
  shows "findTarget (drop 2 (argv e)) = None \<and>
         main fuel e st =
           (if ''-h'' \<in> set (pre @ flags) \<or> ''--help'' \<in> set (pre @ flags)
            then Some (Ok (), printHelp st)
            else initProject fuel e None (set (pre @ flags)) st) \<and>
         resolve (cwd e) (case None of None \<Rightarrow> ''.'' | Some r \<Rightarrow> r) = cwd e"
proof -
  have ft: "findTarget (drop 2 (argv e)) = None"
    using findTarget_flag_between[OF args pre ne fl] .
  have cmd: "find (\<lambda>arg. \<not> startsWithDash arg) (drop 2 (argv e)) = Some ''init''"
    using find_first_positional[OF pre init_not_dash] args by simp
  have opts: "set (filter startsWithDash (drop 2 (argv e))) = set (pre @ flags)"
    using args pre fl dir init_not_dash by auto
  have "main fuel e st =
           (if ''-h'' \<in> set (pre @ flags) \<or> ''--help'' \<in> set (pre @ flags)
            then Some (Ok (), printHelp st)
            else initProject fuel e None (set (pre @ flags)) st)"
    unfolding main_def Let_def using ft cmd opts by simp
  then show ?thesis using ft by (simp add: resolve_dot)
qed

theorem init_flag_then_dir_ignored_witness:
  "drop 2 (argv (sampleEnv [''home'', ''fresh''] [''init'', ''--force'', ''../work''])) =
     [] @ [''init''] @ [''--force''] @ [''../work''] \<and>
   startsWithDash ''--force'' \<and> \<not> startsWithDash ''../work'' \<and>
   findTarget (drop 2 (argv (sampleEnv [''home'', ''fresh''] [''init'', ''--force'', ''../work''])))
     = None \<and>
   main 3 (sampleEnv [''home'', ''fresh''] [''init'', ''--force'', ''../work'']) sampleState =
     initProject 3 (sampleEnv [''home'', ''fresh''] [''init'', ''--force'', ''../work'']) None
       {''--force''} sampleState \<and>
   resolve (cwd (sampleEnv [''home'', ''fresh''] [''init'', ''--force'', ''../work''])) ''.'' =
     [''home'', ''fresh'']"
proof -
  have a: "drop 2 (argv (sampleEnv [''home'', ''fresh''] [''init'', ''--force'', ''../work''])) =
     [] @ [''init''] @ [''--force''] @ [''../work'']"
    by (simp add: sampleEnv_def)
  have b: "\<forall>a \<in> set []. startsWithDash a" by simp
  have c: "[''--force''] \<noteq> []" by simp
  have d: "\<forall>a \<in> set [''--force'']. startsWithDash a" by (simp add: startsWithDash_def)
  have f: "\<not> startsWithDash ''../work''" by (simp add: startsWithDash_def)
  have cw: "cwd (sampleEnv [''home'', ''fresh''] [''init'', ''--force'', ''../work'']) = [''home'', ''fresh'']"
    by (simp add: sampleEnv_def)
  show ?thesis
    using init_flag_then_dir_ignored[OF a b c d f, of 3 sampleState] a d f cw by simp
qed

subsection \<open>Clearing with force\<close>

lemma rmrf_Dir_Cons:
  "ds \<noteq> [] \<Longrightarrow> rmrf (Dir es) (d # ds) =
     (case map_of es d of None \<Rightarrow> Dir es | Some m \<Rightarrow> Dir (AList.update d (rmrf m ds) es))"
  by (cases ds) auto

lemma lookup_rmrf_parent:
  "lookup root t = Some (Dir es) \<Longrightarrow>
   lookup (rmrf root (t @ [d])) t = Some (Dir (AList.delete d es))"
proof (induction t arbitrary: root)
  case Nil
  then show ?case by simp
next
  case (Cons x xs)
  then obtain es0 m where r: "root = Dir es0" "map_of es0 x = Some m" "lookup m xs = Some (Dir es)"
    by (cases root) (auto split: option.splits)
  then show ?case using Cons.IH[of m]
    by (simp add: rmrf_Dir_Cons update_conv')
qed

lemma lookup_rmrf_sibling:
  "d \<noteq> d' \<Longrightarrow> lookup (rmrf root (t @ [d])) (t @ d' # q) = lookup root (t @ d' # q)"
proof (induction t arbitrary: root)
  case Nil
  then show ?case by (cases root) (simp_all add: delete_conv')
next
  case (Cons x xs)
  show ?case
  proof (cases root)
    case (File c)
    then show ?thesis by simp
  next
    case (Dir es0)
    then show ?thesis using Cons.IH[OF Cons.prems]
      by (simp add: rmrf_Dir_Cons update_conv' split: option.splits)
  qed
qed

lemma rmSync_simps [simp]:
  "fs (rmSync p st) = rmrf (fs st) p" "trace (rmSync p st) = trace st @ [Rm p]"
  by (simp_all add: rmSync_def)

lemma clearEntries_keeps_git:
  "lookup (fs (clearEntries t names st)) (t @ ''.git'' # q) = lookup (fs st) (t @ ''.git'' # q)"
  by (induction names arbitrary: st) (simp_all add: lookup_rmrf_sibling)

lemma clearEntries_listing:
  "lookup (fs st) t = Some (Dir es) \<Longrightarrow>
   lookup (fs (clearEntries t names st)) t =
     Some (Dir (filter (\<lambda>(k, v). k = ''.git'' \<or> k \<notin> set names) es))"
proof (induction names arbitrary: st es)
  case Nil
  then show ?case by simp
next
  case (Cons entry entries)
  show ?case
  proof (cases "entry = ''.git''")
    case True
    have "filter (\<lambda>(k, v). k = ''.git'' \<or> k \<notin> set entries) es =
          filter (\<lambda>(k, v). k = ''.git'' \<or> k \<notin> set (entry # entries)) es"
      using True by (intro filter_cong) auto
    then show ?thesis using True Cons.IH[OF Cons.prems] by simp
  next
    case False
    have l: "lookup (fs (rmSync (t @ [entry]) st)) t = Some (Dir (AList.delete entry es))"
      using Cons.prems by (simp add: lookup_rmrf_parent)
    have "filter (\<lambda>(k, v). k = ''.git'' \<or> k \<notin> set entries) (AList.delete entry es) =
          filter (\<lambda>(k, v). k = ''.git'' \<or> k \<notin> set (entry # entries)) es"
      using False unfolding AList.delete_eq filter_filter by (intro filter_cong) auto
    then show ?thesis using False Cons.IH[OF l] by simp
  qed
qed

lemma clearEntries_trace:
  "trace (clearEntries t names st) =
     trace st @ map (\<lambda>name. Rm (t @ [name])) (filter (\<lambda>name. name \<noteq> ''.git'') names)"
  by (induction names arbitrary: st) simp_all

lemma readdir_after_clear:
  assumes "readdirSync (fs st) t = Inr names"
  shows "readdirSync (fs (clearEntries t names st)) t = Inr (filter (\<lambda>name. name = ''.git'') names)"
proof -
  from assms obtain es where es: "lookup (fs st) t = Some (Dir es)" "names = map fst es"
    by (auto simp add: readdirSync_def split: option.splits node.splits)
  have "filter (\<lambda>(k, v). k = ''.git'' \<or> k \<notin> set names) es = filter (\<lambda>(k, v). k = ''.git'') es"
    unfolding es(2) by (intro filter_cong) force+
  moreover have "map fst (filter (\<lambda>(k, v). k = ''.git'') es) =
        filter (\<lambda>name. name = ''.git'') (map fst es)"
    by (induction es) auto
  ultimately have "map fst (filter (\<lambda>(k, v). k = ''.git'' \<or> k \<notin> set names) es) =
        filter (\<lambda>name. name = ''.git'') (map fst es)"
    by simp
  then show ?thesis using clearEntries_listing[OF es(1), of names] es(2)
    by (simp add: readdirSync_def)
qed

lemma isDirEmpty_after_clear:
  assumes "readdirSync (fs st) t = Inr names"
  shows "isDirEmpty (fs (clearEntries t names st)) t = Inr True"
  using readdir_after_clear[OF assms]
  by (auto simp add: isDirEmpty_def filter_empty_conv)

lemma report_simps [simp]:
  "fs (report e t st) = fs st"
  "filter materializes (trace (report e t st)) = filter materializes (trace st)"
  by (simp_all add: report_def Let_def)

lemma filter_materializes_clear [simp]:
  "filter materializes (trace (clearEntries t names st)) = filter materializes (trace st)"
  by (simp add: clearEntries_trace filter_empty_conv)

lemma existsSync_git_after_clear:
  "existsSync (fs (clearEntries t names st)) (t @ [''.git'']) = existsSync (fs st) (t @ [''.git''])"
  using clearEntries_keeps_git[of t names st "[]"] by (simp add: existsSync_def)

lemma finishInit_after_clear:
  assumes "readdirSync (fs st) t = Inr names"
  shows "finishInit fuel e t False (clearEntries t names st) =
     (if existsSync (fs st) (t @ [''.git''])
      then Some (Ok (), report e t (clearEntries t names st))
      else (case cloneRepo e t (clearEntries t names st) of
              (Ok u, st3) \<Rightarrow> Some (Ok (), report e t st3)
            | (Exit n, st3) \<Rightarrow> Some (Exit n, st3)
            | (Throw err, st3) \<Rightarrow> Some (Throw err, st3)))"
  using isDirEmpty_after_clear[OF assms]
  by (simp add: finishInit_def andNotEmpty_def existsSync_git_after_clear materialize_def)

lemma forceClear_nonempty:
  assumes "isDirEmpty (fs st) t = Inr False" "readdirSync (fs st) t = Inr names"
  shows "forceClear True t False st = (Ok (), clearEntries t names st)"
  using assms by (simp add: forceClear_def andNotEmpty_def)

text \<open>
  C3. With \<^verbatim>\<open>--force\<close>, when the resolved target is not the current working directory
  and is not empty, \<^verbatim>\<open>initProject\<close> is the rest of the function (the materialisation
  step onwards) run on the cleared state. In the cleared state the target lists only
  \<^verbatim>\<open>.git\<close> (if it had one), \<^verbatim>\<open>.git\<close> itself is untouched, and the trace has grown by
  exactly one removal per top-level name other than \<^verbatim>\<open>.git\<close>, in the order read, before
  anything the materialisation step does. The step then clones into the target when
  there was no \<^verbatim>\<open>.git\<close>, and only reports when there was one.
\<close>

theorem init_force_clears_other_directory:
  assumes force: "''--force'' \<in> options"
    and target: "targetDir = resolve (cwd e) (case rawTarget of None \<Rightarrow> ''.'' | Some r \<Rightarrow> r)"
    and other: "targetDir \<noteq> cwd e"
    and nonempty: "isDirEmpty (fs st) targetDir = Inr False"
    and names: "readdirSync (fs st) targetDir = Inr names"
  shows "initProject fuel e rawTarget options st =
           finishInit fuel e targetDir False (clearEntries targetDir names st) \<and>
         readdirSync (fs (clearEntries targetDir names st)) targetDir =
           Inr (filter (\<lambda>name. name = ''.git'') names) \<and>
         lookup (fs (clearEntries targetDir names st)) (targetDir @ [''.git'']) =
           lookup (fs st) (targetDir @ [''.git'']) \<and>
         trace (clearEntries targetDir names st) =
           trace st @ map (\<lambda>name. Rm (targetDir @ [name]))
                        (filter (\<lambda>name. name \<noteq> ''.git'') names) \<and>
         finishInit fuel e targetDir False (clearEntries targetDir names st) =
           (if existsSync (fs st) (targetDir @ [''.git''])
            then Some (Ok (), report e targetDir (clearEntries targetDir names st))
            else (case cloneRepo e targetDir (clearEntries targetDir names st) of
                    (Ok u, st3) \<Rightarrow> Some (Ok (), report e targetDir st3)
                  | (Exit n, st3) \<Rightarrow> Some (Exit n, st3)
                  | (Throw err, st3) \<Rightarrow> Some (Throw err, st3)))"
proof -
  from nonempty obtain es where "lookup (fs st) targetDir = Some (Dir es)"
    using isDirEmpty_False_Dir by blast
  then have ens: "ensureDir targetDir st = (Ok (), st)"
    by (simp add: ensureDir_exists)
  have "initProject fuel e rawTarget options st =
           finishInit fuel e targetDir False (clearEntries targetDir names st)"
    using force target[symmetric] other nonempty ens forceClear_nonempty[OF nonempty names]
    by (simp add: initProject_def andNotEmpty_def)
  moreover have "lookup (fs (clearEntries targetDir names st)) (targetDir @ [''.git'']) =
           lookup (fs st) (targetDir @ [''.git''])"
    by (rule clearEntries_keeps_git)
  ultimately show ?thesis
    using readdir_after_clear[OF names] clearEntries_trace[of targetDir names st]
      finishInit_after_clear[OF names, of fuel e]
    by simp
qed

theorem init_force_clears_other_directory_witness:
  "''--force'' \<in> {''--force''} \<and>
   resolve (cwd (sampleEnv [''home''] [])) ''work'' = [''home'', ''work''] \<and>
   [''home'', ''work''] \<noteq> cwd (sampleEnv [''home''] []) \<and>
   isDirEmpty (fs sampleState) [''home'', ''work''] = Inr False \<and>
   readdirSync (fs sampleState) [''home'', ''work''] = Inr [''notes.txt'', ''.git''] \<and>
   initProject 0 (sampleEnv [''home''] []) (Some ''work'') {''--force''} sampleState =
     finishInit 0 (sampleEnv [''home''] []) [''home'', ''work''] False
       (clearEntries [''home'', ''work''] [''notes.txt'', ''.git''] sampleState) \<and>
   readdirSync (fs (clearEntries [''home'', ''work''] [''notes.txt'', ''.git''] sampleState))
     [''home'', ''work''] = Inr [''.git''] \<and>
   trace (clearEntries [''home'', ''work''] [''notes.txt'', ''.git''] sampleState) =
     [Rm [''home'', ''work'', ''notes.txt'']]"
proof -
  have a: "''--force'' \<in> {''--force''}" by simp
  have b: "[''home'', ''work''] =
     resolve (cwd (sampleEnv [''home''] [])) (case Some ''work'' of None \<Rightarrow> ''.'' | Some r \<Rightarrow> r)"
    by code_simp
  have c: "[''home'', ''work''] \<noteq> cwd (sampleEnv [''home''] [])"
    by (simp add: sampleEnv_def)
  have d: "isDirEmpty (fs sampleState) [''home'', ''work''] = Inr False"
    by code_simp
  have n: "readdirSync (fs sampleState) [''home'', ''work''] = Inr [''notes.txt'', ''.git'']"
    by code_simp
  have t: "trace sampleState = []" by (simp add: sampleState_def)
  show ?thesis
    using init_force_clears_other_directory[OF a b c d n, of 0] a b c d n t by simp
qed

subsection \<open>A target that already holds version-control metadata\<close>

lemma lookup_child_parent_Dir:
  assumes "lookup root (t @ [d]) \<noteq> None"
  shows "\<exists>es. lookup root t = Some (Dir es)"
proof (cases "lookup root t")
  case None
  then show ?thesis using assms by (simp add: lookup_append)
next
  case (Some n)
  then show ?thesis using assms by (cases n) (simp_all add: lookup_append)
qed

lemma init_with_git_result:
  assumes target: "targetDir = resolve (cwd e) (case rawTarget of None \<Rightarrow> ''.'' | Some r \<Rightarrow> r)"
    and git: "existsSync (fs st) (targetDir @ [''.git''])"
    and emp: "isDirEmpty (fs st) targetDir = Inr isEmpty"
    and names: "readdirSync (fs st) targetDir = Inr names"
  shows "initProject fuel e rawTarget options st =
     Some (if \<not> isEmpty \<and> ''--force'' \<notin> options
             then (Exit 1, emit (Stderr (notEmptyMessage targetDir)) st)
           else if \<not> isEmpty \<and> targetDir = cwd e
             then (Exit 1, emit (Stderr refusingMessage) st)
           else if \<not> isEmpty
             then (Ok (), report e targetDir (clearEntries targetDir names st))
           else (Ok (), report e targetDir st))"
proof -
  from git have "lookup (fs st) (targetDir @ [''.git'']) \<noteq> None"
    by (simp add: existsSync_def)
  then obtain es where es: "lookup (fs st) targetDir = Some (Dir es)"
    using lookup_child_parent_Dir by blast
  have ens: "ensureDir targetDir st = (Ok (), st)"
    using es by (simp add: ensureDir_exists)
  have fin: "finishInit fuel e targetDir c st = Some (Ok (), report e targetDir st)" for c
    using git by (simp add: finishInit_def andNotEmpty_def)
  consider (refuse1) "''--force'' \<notin> options" "\<not> isEmpty"
    | (refuse2) "''--force'' \<in> options" "\<not> isEmpty" "targetDir = cwd e"
    | (clear) "''--force'' \<in> options" "\<not> isEmpty" "targetDir \<noteq> cwd e"
    | (empty) "isEmpty" by blast
  then show ?thesis
  proof cases
    case refuse1
    then show ?thesis
      using target[symmetric] ens emp by (simp add: initProject_def andNotEmpty_def)
  next
    case refuse2
    then show ?thesis
      using target[symmetric] ens emp by (simp add: initProject_def andNotEmpty_def)
  next
    case clear
    have ne: "isDirEmpty (fs st) targetDir = Inr False" using emp clear by simp
    have "initProject fuel e rawTarget options st =
        finishInit fuel e targetDir False (clearEntries targetDir names st)"
      using target[symmetric] clear ens ne forceClear_nonempty[OF ne names]
      by (simp add: initProject_def andNotEmpty_def)
    then show ?thesis
      using finishInit_after_clear[OF names, of fuel e] git clear by simp
  next
    case empty
    then show ?thesis
      using target[symmetric] ens emp fin
      by (cases "''--force'' \<in> options")
         (simp_all add: initProject_def andNotEmpty_def forceClear_def Let_def)
  qed
qed

text \<open>
  C5 as stated fails on the code. A first \<^verbatim>\<open>webclaw init new\<close> clones into
  \<^verbatim>\<open>/home/new\<close> and leaves \<^verbatim>\<open>.git\<close> there; the same command run again on the state
  the first run left ends with status 1, not 0, because the directory is not empty.
\<close>

theorem init_rerun_counterexample:
  "initProject 0 (sampleEnv [''home''] []) (Some ''new'') {} sampleState =
     Some (Ok (), afterFirstRun) \<and>
   existsSync (fs afterFirstRun) [''home'', ''new'', ''.git''] \<and>
   initProject 0 (sampleEnv [''home''] []) (Some ''new'') {} afterFirstRun =
     Some (Exit 1, emit (Stderr (notEmptyMessage [''home'', ''new''])) afterFirstRun) \<and>
   exit_status (Exit 1) \<noteq> 0"
  by code_simp

text \<open>
  C5. The claim as the code has it. When the target already holds \<^verbatim>\<open>.git\<close>,
  \<^verbatim>\<open>initProject\<close> returns for every fuel and never materialises: no process is spawned
  and nothing is copied or created. The guards still apply first: the exit status is 1
  when the target holds more than \<^verbatim>\<open>.git\<close> and \<^verbatim>\<open>.DS_Store\<close> and either \<^verbatim>\<open>--force\<close>
  is absent or the target is the current directory, and 0 otherwise; the file system is
  unchanged except that \<^verbatim>\<open>--force\<close> on a non-empty directory other than the current
  one removes everything in it but \<^verbatim>\<open>.git\<close>.
\<close>

theorem init_with_git_skips_materialization:
  assumes target: "targetDir = resolve (cwd e) (case rawTarget of None \<Rightarrow> ''.'' | Some r \<Rightarrow> r)"
    and git: "existsSync (fs st) (targetDir @ [''.git''])"
  shows "\<exists>isEmpty names r st'.
           isDirEmpty (fs st) targetDir = Inr isEmpty \<and>
           readdirSync (fs st) targetDir = Inr names \<and>
           initProject fuel e rawTarget options st = Some (r, st') \<and>
           filter materializes (trace st') = filter materializes (trace st) \<and>
           exit_status r =
             (if \<not> isEmpty \<and> (''--force'' \<notin> options \<or> targetDir = cwd e) then 1 else 0) \<and>
           fs st' =
             (if \<not> isEmpty \<and> ''--force'' \<in> options \<and> targetDir \<noteq> cwd e
              then fs (clearEntries targetDir names st) else fs st)"
proof -
  from git have "lookup (fs st) (targetDir @ [''.git'']) \<noteq> None"
    by (simp add: existsSync_def)
  then obtain es where es: "lookup (fs st) targetDir = Some (Dir es)"
    using lookup_child_parent_Dir by blast
  define isEmpty where
    "isEmpty = (\<forall>name \<in> set (map fst es). name = ''.git'' \<or> name = ''.DS_Store'')"
  have emp: "isDirEmpty (fs st) targetDir = Inr isEmpty"
    using isDirEmpty_Dir[OF es] by (simp add: isEmpty_def)
  have names: "readdirSync (fs st) targetDir = Inr (map fst es)"
    using es by (simp add: readdirSync_def)
  have "\<exists>r st'.
           initProject fuel e rawTarget options st = Some (r, st') \<and>
           filter materializes (trace st') = filter materializes (trace st) \<and>
           exit_status r =
             (if \<not> isEmpty \<and> (''--force'' \<notin> options \<or> targetDir = cwd e) then 1 else 0) \<and>
           fs st' =
             (if \<not> isEmpty \<and> ''--force'' \<in> options \<and> targetDir \<noteq> cwd e
              then fs (clearEntries targetDir (map fst es) st) else fs st)"
    unfolding init_with_git_result[OF target git emp names] by (simp split: if_splits)
  then show ?thesis using emp names by blast
qed

theorem init_with_git_skips_materialization_witness:
  "resolve (cwd (sampleEnv [''home''] [])) ''work'' = [''home'', ''work''] \<and>
   existsSync (fs sampleState) ([''home'', ''work''] @ [''.git'']) \<and>
   isDirEmpty (fs sampleState) [''home'', ''work''] = Inr False \<and>
   readdirSync (fs sampleState) [''home'', ''work''] = Inr [''notes.txt'', ''.git''] \<and>
   [''home'', ''work''] \<noteq> cwd (sampleEnv [''home''] []) \<and>
   (\<exists>r st'. initProject 0 (sampleEnv [''home''] []) (Some ''work'') {''--force''} sampleState =
        Some (r, st') \<and>
      filter materializes (trace st') = filter materializes (trace sampleState) \<and>
      exit_status r = 0 \<and>
      fs st' = fs (clearEntries [''home'', ''work''] [''notes.txt'', ''.git''] sampleState))"
proof -
  have b: "[''home'', ''work''] =
     resolve (cwd (sampleEnv [''home''] [])) (case Some ''work'' of None \<Rightarrow> ''.'' | Some r \<Rightarrow> r)"
    by code_simp
  have g: "existsSync (fs sampleState) ([''home'', ''work''] @ [''.git''])"
    by code_simp
  have d: "isDirEmpty (fs sampleState) [''home'', ''work''] = Inr False"
    by code_simp
  have n: "readdirSync (fs sampleState) [''home'', ''work''] = Inr [''notes.txt'', ''.git'']"
    by code_simp
  have c: "[''home'', ''work''] \<noteq> cwd (sampleEnv [''home''] [])"
    by (simp add: sampleEnv_def)
  from init_with_git_skips_materialization[OF b g, of 0 "{''--force''}"]
  obtain isEmpty names r st' where r:
    "isDirEmpty (fs sampleState) [''home'', ''work''] = Inr isEmpty"
    "readdirSync (fs sampleState) [''home'', ''work''] = Inr names"
    "initProject 0 (sampleEnv [''home''] []) (Some ''work'') {''--force''} sampleState =
       Some (r, st')"
    "filter materializes (trace st') = filter materializes (trace sampleState)"
    "exit_status r =
       (if \<not> isEmpty \<and> (''--force'' \<notin> {''--force''} \<or>
           [''home'', ''work''] = cwd (sampleEnv [''home''] [])) then 1 else 0)"
    "fs st' =
       (if \<not> isEmpty \<and> ''--force'' \<in> {''--force''} \<and>
           [''home'', ''work''] \<noteq> cwd (sampleEnv [''home''] [])
        then fs (clearEntries [''home'', ''work''] names sampleState) else fs sampleState)"
    by blast
  from r(1) d have e: "isEmpty = False" by simp
  from r(2) n have m: "names = [''notes.txt'', ''.git'']" by simp
  have x: "exit_status r = 0" using r(5) e c by simp
  have f: "fs st' = fs (clearEntries [''home'', ''work''] [''notes.txt'', ''.git''] sampleState)"
    using r(6) e m c by simp
  have "\<exists>r st'. initProject 0 (sampleEnv [''home''] []) (Some ''work'') {''--force''} sampleState =
        Some (r, st') \<and>
      filter materializes (trace st') = filter materializes (trace sampleState) \<and>
      exit_status r = 0 \<and>
      fs st' = fs (clearEntries [''home'', ''work''] [''notes.txt'', ''.git''] sampleState)"
    using r(3,4) x f by blast
  then show ?thesis using b[symmetric] g d n c by simp
qed

subsection \<open>Classifying a directory\<close>

text \<open>
  C4. A directory that does not exist is classified empty; an existing directory is
  classified empty exactly when every name in it is \<^verbatim>\<open>.git\<close> or \<^verbatim>\<open>.DS_Store\<close>.
\<close>

theorem isDirEmpty_classification:
  "(lookup root d = None \<longrightarrow> isDirEmpty root d = Inr True) \<and>
   (\<forall>es. lookup root d = Some (Dir es) \<longrightarrow>
      isDirEmpty root d =
        Inr (\<forall>name \<in> set (map fst es). name = ''.git'' \<or> name = ''.DS_Store''))"
  using isDirEmpty_missing isDirEmpty_Dir by blast

theorem isDirEmpty_classification_witness:
  "lookup sampleRoot [''home'', ''nowhere''] = None \<and>
   isDirEmpty sampleRoot [''home'', ''nowhere''] = Inr True \<and>
   lookup sampleRoot [''home'', ''fresh''] = Some (Dir [(''.DS_Store'', File [])]) \<and>
   isDirEmpty sampleRoot [''home'', ''fresh''] = Inr True \<and>
   lookup sampleRoot [''home'', ''work''] =
     Some (Dir [(''notes.txt'', File ''todo''), (''.git'', Dir [])]) \<and>
   isDirEmpty sampleRoot [''home'', ''work''] = Inr False"
proof -
  have a: "lookup sampleRoot [''home'', ''nowhere''] = None"
    by (simp add: sampleRoot_def)
  have b: "lookup sampleRoot [''home'', ''fresh''] = Some (Dir [(''.DS_Store'', File [])])"
    by (simp add: sampleRoot_def)
  have c: "lookup sampleRoot [''home'', ''work''] =
     Some (Dir [(''notes.txt'', File ''todo''), (''.git'', Dir [])])"
    by (simp add: sampleRoot_def)
  show ?thesis
    using isDirEmpty_classification[of sampleRoot "[''home'', ''nowhere'']"]
      isDirEmpty_classification[of sampleRoot "[''home'', ''fresh'']"]
      isDirEmpty_classification[of sampleRoot "[''home'', ''work'']"] a b c
    by simp
qed

subsection \<open>The filtered copy\<close>

text \<open>
  What a copy brings into being: the file system calls first, then \<^verbatim>\<open>copyDir\<close> by
  induction along its own recursion.
\<close>

lemma mkdirp_new:
  "mkdirp n p = Inr n' \<Longrightarrow> lookup n' q \<noteq> None \<Longrightarrow> lookup n q = None \<Longrightarrow> prefix q p"
proof (induction p arbitrary: n n' q)
  case Nil
  then show ?case by (cases n) auto
next
  case (Cons d ds)
  from Cons.prems(1) obtain es where n: "n = Dir es" by (cases n) auto
  define m0 where "m0 = (case map_of es d of None \<Rightarrow> Dir [] | Some m \<Rightarrow> m)"
  from Cons.prems(1) n obtain m' where m': "mkdirp m0 ds = Inr m'" "n' = Dir (AList.update d m' es)"
    by (auto simp add: m0_def split: sum.splits)
  show ?case
  proof (cases q)
    case Nil
    then show ?thesis by simp
  next
    case (Cons x xs)
    show ?thesis
    proof (cases "x = d")
      case False
      then show ?thesis using Cons.prems(2,3) m'(2) n Cons by (simp add: update_conv')
    next
      case True
      have a: "lookup m' xs \<noteq> None" using Cons.prems(2) m'(2) Cons True by (simp add: update_conv')
      show ?thesis
      proof (cases "xs = []")
        case True
        then show ?thesis using Cons \<open>x = d\<close> by simp
      next
        case False
        have "lookup m0 xs = None"
          using Cons.prems(3) n Cons True False
          by (cases xs) (auto simp add: m0_def split: option.splits)
        then have "prefix xs ds" using Cons.IH[OF m'(1) a] by simp
        then show ?thesis using Cons True by simp
      qed
    qed
  qed
qed

lemma writeFile_new:
  "writeFile n p c = Inr n' \<Longrightarrow> lookup n' q \<noteq> None \<Longrightarrow> lookup n q = None \<Longrightarrow> q = p"
proof (induction p arbitrary: n n' q)
  case Nil
  then show ?case by (cases n; cases q) auto
next
  case (Cons d ds)
  from Cons.prems(1) obtain es where n: "n = Dir es" by (cases n) auto
  show ?case
  proof (cases q)
    case Nil
    then show ?thesis using Cons.prems by simp
  next
    case q: (Cons x xs)
    show ?thesis
    proof (cases "map_of es d")
      case None
      then have n': "ds = []" "n' = Dir (AList.update d (File c) es)"
        using Cons.prems(1) n by (auto split: if_splits)
      then show ?thesis using Cons.prems(2,3) n q None
        by (cases xs) (auto simp add: update_conv' split: if_splits)
    next
      case (Some m)
      then obtain m' where m': "writeFile m ds c = Inr m'" "n' = Dir (AList.update d m' es)"
        using Cons.prems(1) n by (auto split: sum.splits)
      show ?thesis
      proof (cases "x = d")
        case False
        then show ?thesis using Cons.prems(2,3) m'(2) n q by (simp add: update_conv')
      next
        case True
        then have "lookup m' xs \<noteq> None" "lookup m xs = None"
          using Cons.prems(2,3) m'(2) n q Some by (simp_all add: update_conv')
        then have "xs = ds" using Cons.IH[OF m'(1)] by blast
        then show ?thesis using q True by simp
      qed
    qed
  qed
qed

lemma rmrf_no_new: "lookup (rmrf n p) q \<noteq> None \<Longrightarrow> lookup n q \<noteq> None"
proof (induction p arbitrary: n q)
  case Nil
  then show ?case by simp
next
  case (Cons d ds)
  show ?case
  proof (cases n)
    case (File c)
    then show ?thesis using Cons.prems by simp
  next
    case (Dir es)
    show ?thesis
    proof (cases q)
      case Nil
      then show ?thesis by simp
    next
      case q: (Cons x xs)
      show ?thesis
      proof (cases "ds = []")
        case True
        then show ?thesis using Cons.prems Dir q
          by (auto simp add: delete_conv' split: option.splits if_splits)
      next
        case False
        show ?thesis
        proof (cases "map_of es d")
          case None
          then show ?thesis using Cons.prems Dir False by (simp add: rmrf_Dir_Cons)
        next
          case (Some m)
          then have r: "rmrf n (d # ds) = Dir (AList.update d (rmrf m ds) es)"
            using Dir False by (simp add: rmrf_Dir_Cons)
          show ?thesis
          proof (cases "x = d")
            case True
            then have "lookup (rmrf m ds) xs \<noteq> None"
              using Cons.prems r q by (simp add: update_conv')
            then have "lookup m xs \<noteq> None" using Cons.IH by blast
            then show ?thesis using Dir q True Some by simp
          next
            case False
            then show ?thesis using Cons.prems r q Dir by (simp add: update_conv')
          qed
        qed
      qed
    qed
  qed
qed

lemma ensureDir_new:
  "ensureDir t st = (r, st') \<Longrightarrow> lookup (fs st') q \<noteq> None \<Longrightarrow> lookup (fs st) q = None \<Longrightarrow>
   prefix q t"
proof -
  assume a: "ensureDir t st = (r, st')" "lookup (fs st') q \<noteq> None" "lookup (fs st) q = None"
  then have "fs st' \<noteq> fs st" by auto
  then obtain root' where "mkdirp (fs st) t = Inr root'" "fs st' = root'"
    using a(1) by (auto simp add: ensureDir_def split: if_splits sum.splits)
  then show "prefix q t" using mkdirp_new a(2,3) by metis
qed

lemma copyFileSync_new:
  "copyFileSync s d st = (r, st') \<Longrightarrow> lookup (fs st') q \<noteq> None \<Longrightarrow> lookup (fs st) q = None \<Longrightarrow>
   q = d"
proof -
  assume a: "copyFileSync s d st = (r, st')" "lookup (fs st') q \<noteq> None" "lookup (fs st) q = None"
  then have "fs st' \<noteq> fs st" by auto
  then obtain c root' where "writeFile (fs st) d c = Inr root'" "fs st' = root'"
    using a(1)
    by (auto simp add: copyFileSync_def copyFile_def split: sum.splits option.splits node.splits)
  then show "q = d" using writeFile_new a(2,3) by metis
qed

lemma covered_prefix: "prefix q t \<Longrightarrow> covered t q"
  by (simp add: covered_def)

lemma covered_child: "\<not> skipped name \<Longrightarrow> covered t (t @ [name])"
  by (simp add: covered_def clean_def)

lemma covered_step:
  assumes "\<not> skipped name" "covered (t @ [name]) q"
  shows "covered t q"
proof -
  from assms(2) consider (a) "prefix q (t @ [name])"
    | (b) "prefix (t @ [name]) q" "clean (drop (length (t @ [name])) q)"
    by (auto simp add: covered_def)
  then show ?thesis
  proof cases
    case a
    then have "prefix q t \<or> q = t @ [name]" by (auto simp add: prefix_snoc)
    then show ?thesis using assms(1) covered_prefix covered_child by blast
  next
    case b
    then obtain rel where q: "q = t @ name # rel" by (auto simp add: prefix_def)
    then have "clean rel" using b(2) by simp
    then show ?thesis using q assms(1) by (simp add: covered_def clean_def)
  qed
qed


lemma copy_new:
  "copyDir k s t st = Some (r, st') \<Longrightarrow> lookup (fs st') q \<noteq> None \<Longrightarrow>
     lookup (fs st) q = None \<Longrightarrow> covered t q"
  "copyEntries k s t es st = Some (r, st') \<Longrightarrow> lookup (fs st') q \<noteq> None \<Longrightarrow>
     lookup (fs st) q = None \<Longrightarrow> covered t q"
proof (induction k s t st and k s t es st arbitrary: r st' q and r st' q
    rule: copyDir_copyEntries.induct)
  case (1 sourceDir targetDir st)
  then show ?case by simp
next
  case (2 k sourceDir targetDir st)
  obtain r1 st1 where e: "ensureDir targetDir st = (r1, st1)" by (cases "ensureDir targetDir st")
  show ?case
  proof (cases "lookup (fs st1) q")
    case None
    then obtain u entries where ok: "r1 = Ok u" "readdirTypes (fs st1) sourceDir = Inr entries"
      "copyEntries k sourceDir targetDir entries st1 = Some (r, st')"
      using "2.prems"(1,2) e by (auto split: res.splits sum.splits)
    show ?thesis using "2.IH"[OF e[symmetric] ok(1) ok(2) ok(3) "2.prems"(2) None] .
  next
    case (Some y)
    then have "prefix q targetDir" using ensureDir_new[OF e] "2.prems"(3) by simp
    then show ?thesis by (rule covered_prefix)
  qed
next
  case (3 k sourceDir targetDir st)
  then show ?case by simp
next
  case (4 k sourceDir targetDir name isDir entries st)
  show ?case
  proof (cases "skipped name")
    case True
    then show ?thesis using "4.IH"(1) "4.prems" by simp
  next
    case ns: False
    show ?thesis
    proof (cases isDir)
      case True
      then consider (ok) u st1 where
          "copyDir k (sourceDir @ [name]) (targetDir @ [name]) st = Some (Ok u, st1)"
          "copyEntries k sourceDir targetDir entries st1 = Some (r, st')"
        | (stop) "copyDir k (sourceDir @ [name]) (targetDir @ [name]) st = Some (r, st')"
        using "4.prems"(1) ns by (auto split: option.splits res.splits)
      then show ?thesis
      proof cases
        case ok
        show ?thesis
        proof (cases "lookup (fs st1) q")
          case None
          show ?thesis using "4.IH"(3)[OF ns True ok(1) refl refl ok(2) "4.prems"(2) None] .
        next
          case (Some y)
          then have "covered (targetDir @ [name]) q"
            using "4.IH"(2)[OF ns True ok(1) _ "4.prems"(3)] by simp
          then show ?thesis using covered_step ns by blast
        qed
      next
        case stop
        then have "covered (targetDir @ [name]) q"
          using "4.IH"(2)[OF ns True stop "4.prems"(2,3)] by simp
        then show ?thesis using covered_step ns by blast
      qed
    next
      case False
      obtain r1 st1 where f: "copyFileSync (sourceDir @ [name]) (targetDir @ [name]) st = (r1, st1)"
        by (cases "copyFileSync (sourceDir @ [name]) (targetDir @ [name]) st")
      show ?thesis
      proof (cases "lookup (fs st1) q")
        case None
        then obtain u where ok: "r1 = Ok u" "copyEntries k sourceDir targetDir entries st1 = Some (r, st')"
          using "4.prems"(1,2) ns False f by (auto split: res.splits)
        show ?thesis using "4.IH"(4)[OF ns False f[symmetric] ok(1) ok(2) "4.prems"(2) None] .
      next
        case (Some y)
        then have "q = targetDir @ [name]" using copyFileSync_new[OF f] "4.prems"(3) by simp
        then show ?thesis using covered_child ns by simp
      qed
    qed
  qed
qed


text \<open>What a copy leaves alone: every path that is neither above nor below the target.\<close>

lemma mkdirp_frame:
  "mkdirp n p = Inr n' \<Longrightarrow> \<not> prefix q p \<Longrightarrow> \<not> prefix p q \<Longrightarrow> lookup n' q = lookup n q"
proof (induction p arbitrary: n n' q)
  case Nil
  then show ?case by simp
next
  case (Cons d ds)
  from Cons.prems(1) obtain es where n: "n = Dir es" by (cases n) auto
  define m0 where "m0 = (case map_of es d of None \<Rightarrow> Dir [] | Some m \<Rightarrow> m)"
  from Cons.prems(1) n obtain m' where m': "mkdirp m0 ds = Inr m'" "n' = Dir (AList.update d m' es)"
    by (auto simp add: m0_def split: sum.splits)
  from Cons.prems(2) obtain x xs where q: "q = x # xs" by (cases q) auto
  show ?case
  proof (cases "x = d")
    case False
    then show ?thesis using m'(2) n q by (simp add: update_conv')
  next
    case True
    then have np: "\<not> prefix xs ds" "\<not> prefix ds xs" using Cons.prems(2,3) q by simp_all
    then have xs: "xs \<noteq> []" by auto
    have "lookup m' xs = lookup m0 xs" using Cons.IH[OF m'(1) np] .
    moreover have "lookup (Dir []) xs = None" using xs by (cases xs) simp_all
    ultimately show ?thesis using m'(2) n q True
      by (simp add: update_conv' m0_def split: option.splits)
  qed
qed

lemma writeFile_frame:
  "writeFile n p c = Inr n' \<Longrightarrow> \<not> prefix q p \<Longrightarrow> \<not> prefix p q \<Longrightarrow> lookup n' q = lookup n q"
proof (induction p arbitrary: n n' q)
  case Nil
  then show ?case by simp
next
  case (Cons d ds)
  from Cons.prems(1) obtain es where n: "n = Dir es" by (cases n) auto
  from Cons.prems(2) obtain x xs where q: "q = x # xs" by (cases q) auto
  show ?case
  proof (cases "x = d")
    case False
    then show ?thesis using Cons.prems(1) n q
      by (auto simp add: update_conv' split: option.splits sum.splits if_splits)
  next
    case True
    then have np: "\<not> prefix xs ds" "\<not> prefix ds xs" using Cons.prems(2,3) q by simp_all
    show ?thesis
    proof (cases "map_of es d")
      case None
      then show ?thesis using Cons.prems(1) n q True np
        by (auto simp add: update_conv' split: if_splits)
    next
      case (Some m)
      then obtain m' where m': "writeFile m ds c = Inr m'" "n' = Dir (AList.update d m' es)"
        using Cons.prems(1) n by (auto split: sum.splits)
      have "lookup m' xs = lookup m xs" using Cons.IH[OF m'(1) np] .
      then show ?thesis using m'(2) n q True Some by (simp add: update_conv')
    qed
  qed
qed

lemma ensureDir_frame:
  assumes "ensureDir t st = (r, st')" "\<not> prefix q t" "\<not> prefix t q"
  shows "lookup (fs st') q = lookup (fs st) q"
proof (cases "fs st' = fs st")
  case True
  then show ?thesis by simp
next
  case False
  then obtain root' where "mkdirp (fs st) t = Inr root'" "fs st' = root'"
    using assms(1) by (auto simp add: ensureDir_def split: if_splits sum.splits)
  then show ?thesis using mkdirp_frame assms(2,3) by metis
qed

lemma copyFileSync_frame:
  assumes "copyFileSync s d st = (r, st')" "\<not> prefix q d" "\<not> prefix d q"
  shows "lookup (fs st') q = lookup (fs st) q"
proof (cases "fs st' = fs st")
  case True
  then show ?thesis by simp
next
  case False
  then obtain c root' where "writeFile (fs st) d c = Inr root'" "fs st' = root'"
    using assms(1)
    by (auto simp add: copyFileSync_def copyFile_def split: sum.splits option.splits node.splits)
  then show ?thesis using writeFile_frame assms(2,3) by metis
qed

lemma apart_child:
  assumes "\<not> prefix q t" "\<not> prefix t q"
  shows "\<not> prefix q (t @ [name])" "\<not> prefix (t @ [name]) q"
proof -
  show "\<not> prefix q (t @ [name])"
    using assms by (auto simp add: prefix_snoc)
  show "\<not> prefix (t @ [name]) q"
    using assms(2) by (meson append_prefixD)
qed

lemma copy_frame:
  "copyDir k s t st = Some (r, st') \<Longrightarrow> \<not> prefix q t \<Longrightarrow> \<not> prefix t q \<Longrightarrow>
     lookup (fs st') q = lookup (fs st) q"
  "copyEntries k s t es st = Some (r, st') \<Longrightarrow> \<not> prefix q t \<Longrightarrow> \<not> prefix t q \<Longrightarrow>
     lookup (fs st') q = lookup (fs st) q"
proof (induction k s t st and k s t es st arbitrary: r st' and r st'
    rule: copyDir_copyEntries.induct)
  case (1 sourceDir targetDir st)
  then show ?case by simp
next
  case (2 k sourceDir targetDir st)
  obtain r1 st1 where e: "ensureDir targetDir st = (r1, st1)" by (cases "ensureDir targetDir st")
  have f1: "lookup (fs st1) q = lookup (fs st) q"
    using ensureDir_frame[OF e "2.prems"(2,3)] .
  show ?case
  proof (cases "st' = st1")
    case True
    then show ?thesis using f1 by simp
  next
    case False
    then obtain u entries where ok: "r1 = Ok u" "readdirTypes (fs st1) sourceDir = Inr entries"
      "copyEntries k sourceDir targetDir entries st1 = Some (r, st')"
      using "2.prems"(1) e by (auto split: res.splits sum.splits)
    show ?thesis using "2.IH"[OF e[symmetric] ok(1) ok(2) ok(3) "2.prems"(2,3)] f1 by simp
  qed
next
  case (3 k sourceDir targetDir st)
  then show ?case by simp
next
  case (4 k sourceDir targetDir name isDir entries st)
  note ap = apart_child[OF "4.prems"(2,3), of name]
  show ?case
  proof (cases "skipped name")
    case True
    then show ?thesis using "4.IH"(1) "4.prems" by simp
  next
    case ns: False
    show ?thesis
    proof (cases isDir)
      case True
      then consider (ok) u st1 where
          "copyDir k (sourceDir @ [name]) (targetDir @ [name]) st = Some (Ok u, st1)"
          "copyEntries k sourceDir targetDir entries st1 = Some (r, st')"
        | (stop) "copyDir k (sourceDir @ [name]) (targetDir @ [name]) st = Some (r, st')"
        using "4.prems"(1) ns by (auto split: option.splits res.splits)
      then show ?thesis
      proof cases
        case ok
        have "lookup (fs st1) q = lookup (fs st) q"
          using "4.IH"(2)[OF ns True ok(1) ap] .
        moreover have "lookup (fs st') q = lookup (fs st1) q"
          using "4.IH"(3)[OF ns True ok(1) refl refl ok(2) "4.prems"(2,3)] .
        ultimately show ?thesis by simp
      next
        case stop
        show ?thesis using "4.IH"(2)[OF ns True stop ap] .
      qed
    next
      case False
      obtain r1 st1 where f: "copyFileSync (sourceDir @ [name]) (targetDir @ [name]) st = (r1, st1)"
        by (cases "copyFileSync (sourceDir @ [name]) (targetDir @ [name]) st")
      have f1: "lookup (fs st1) q = lookup (fs st) q"
        using copyFileSync_frame[OF f ap] .
      show ?thesis
      proof (cases "st' = st1")
        case True
        then show ?thesis using f1 by simp
      next
        case neq: False
        then obtain u where ok: "r1 = Ok u" "copyEntries k sourceDir targetDir entries st1 = Some (r, st')"
          using "4.prems"(1) ns False f by (auto split: res.splits)
        show ?thesis using "4.IH"(4)[OF ns False f[symmetric] ok(1) ok(2) "4.prems"(2,3)] f1 by simp
      qed
    qed
  qed
qed


text \<open>
  The copy returns when source and target are apart (neither is a prefix of the other)
  and the fuel exceeds the size of the source tree.
\<close>

lemma size_child: "map_of es d = Some m \<Longrightarrow> size m < size (Dir es)"
proof -
  assume "map_of es d = Some m"
  then have "(d, m) \<in> set es" by (rule map_of_SomeD)
  then have "size_prod (\<lambda>x. 0) size (d, m) \<le> size_list (size_prod (\<lambda>x. 0) size) es"
    by (rule size_list_estimation') simp
  then show ?thesis by simp
qed

lemma apart_both:
  assumes "\<not> prefix s t" "\<not> prefix t s"
  shows "\<not> prefix (s @ [name]) (t @ [name])" "\<not> prefix (t @ [name]) (s @ [name])"
    "\<not> prefix s (t @ [name])" "\<not> prefix (t @ [name]) s"
proof -
  show "\<not> prefix s (t @ [name])" "\<not> prefix (t @ [name]) s"
    using apart_child[OF assms] by simp_all
  show "\<not> prefix (s @ [name]) (t @ [name])"
    using assms by (auto simp add: prefix_snoc dest: append_prefixD)
  show "\<not> prefix (t @ [name]) (s @ [name])"
    using assms by (auto simp add: prefix_snoc dest: append_prefixD)
qed

lemma copy_terminates:
  "\<not> prefix s t \<Longrightarrow> \<not> prefix t s \<Longrightarrow> weight (fs st) s < k \<Longrightarrow> copyDir k s t st \<noteq> None"
  "\<not> prefix s t \<Longrightarrow> \<not> prefix t s \<Longrightarrow> lookup (fs st) s = Some (Dir es0) \<Longrightarrow>
     size (Dir es0) \<le> k \<Longrightarrow> fst ` set es \<subseteq> fst ` set es0 \<Longrightarrow>
     copyEntries k s t es st \<noteq> None"
proof (induction k s t st and k s t es st arbitrary: and es0
    rule: copyDir_copyEntries.induct)
  case (1 sourceDir targetDir st)
  then show ?case by simp
next
  case (2 k sourceDir targetDir st)
  obtain r1 st1 where e: "ensureDir targetDir st = (r1, st1)" by (cases "ensureDir targetDir st")
  have f1: "lookup (fs st1) sourceDir = lookup (fs st) sourceDir"
    using ensureDir_frame[OF e "2.prems"(1,2)] .
  show ?case
  proof (cases r1)
    case (Ok u)
    show ?thesis
    proof (cases "readdirTypes (fs st1) sourceDir")
      case (Inl err)
      then show ?thesis using e Ok by simp
    next
      case (Inr entries)
      then obtain es0 where es0: "lookup (fs st1) sourceDir = Some (Dir es0)"
        "entries = map (\<lambda>(name, m). (name, isDirectory m)) es0"
        by (auto simp add: readdirTypes_def split: option.splits node.splits)
      have "size (Dir es0) \<le> k"
        using "2.prems"(3) es0(1) f1 by (simp add: weight_def)
      moreover have "fst ` set entries \<subseteq> fst ` set es0"
        unfolding es0(2) by force
      ultimately have "copyEntries k sourceDir targetDir entries st1 \<noteq> None"
        using "2.IH"[OF e[symmetric] Ok Inr "2.prems"(1,2) es0(1)] by blast
      then show ?thesis using e Ok Inr by simp
    qed
  next
    case (Exit n)
    then show ?thesis using e by simp
  next
    case (Throw err)
    then show ?thesis using e by simp
  qed
next
  case (3 k sourceDir targetDir st)
  then show ?case by simp
next
  case (4 k sourceDir targetDir name isDir entries st)
  note ap = apart_both[OF "4.prems"(1,2), of name]
  have sub: "fst ` set entries \<subseteq> fst ` set es0" using "4.prems"(5) by simp
  show ?case
  proof (cases "skipped name")
    case True
    then show ?thesis using "4.IH"(1)[OF True "4.prems"(1,2,3,4) sub] by simp
  next
    case ns: False
    show ?thesis
    proof (cases isDir)
      case True
      have "name \<in> fst ` set es0" using "4.prems"(5) by simp
      then obtain m where m: "map_of es0 name = Some m"
        by (metis domD dom_map_of_conv_image_fst)
      then have "lookup (fs st) (sourceDir @ [name]) = Some m"
        using "4.prems"(3) by (simp add: lookup_append)
      then have "weight (fs st) (sourceDir @ [name]) < k"
        using size_child[OF m] "4.prems"(4) by (simp add: weight_def)
      then have "copyDir k (sourceDir @ [name]) (targetDir @ [name]) st \<noteq> None"
        using "4.IH"(2)[OF ns True ap(1,2)] by simp
      then obtain r1 st1 where c: "copyDir k (sourceDir @ [name]) (targetDir @ [name]) st = Some (r1, st1)"
        by auto
      show ?thesis
      proof (cases r1)
        case (Ok u)
        have "lookup (fs st1) sourceDir = Some (Dir es0)"
          using copy_frame(1)[OF c ap(3,4)] "4.prems"(3) by simp
        then have "copyEntries k sourceDir targetDir entries st1 \<noteq> None"
          using "4.IH"(3)[OF ns True c refl Ok "4.prems"(1,2) _ "4.prems"(4) sub] by simp
        then show ?thesis using ns True c Ok by simp
      next
        case (Exit n)
        then show ?thesis using ns True c by simp
      next
        case (Throw err)
        then show ?thesis using ns True c by simp
      qed
    next
      case False
      obtain r1 st1 where f: "copyFileSync (sourceDir @ [name]) (targetDir @ [name]) st = (r1, st1)"
        by (cases "copyFileSync (sourceDir @ [name]) (targetDir @ [name]) st")
      show ?thesis
      proof (cases r1)
        case (Ok u)
        have "lookup (fs st1) sourceDir = Some (Dir es0)"
          using copyFileSync_frame[OF f ap(3,4)] "4.prems"(3) by simp
        then have "copyEntries k sourceDir targetDir entries st1 \<noteq> None"
          using "4.IH"(4)[OF ns False f[symmetric] Ok "4.prems"(1,2) _ "4.prems"(4) sub] by simp
        then show ?thesis using ns False f Ok by simp
      next
        case (Exit n)
        then show ?thesis using ns False f by simp
      next
        case (Throw err)
        then show ?thesis using ns False f by simp
      qed
    qed
  qed
qed


text \<open>From \<^verbatim>\<open>copyDir\<close> to \<^verbatim>\<open>initProject\<close>.\<close>

lemma mkdirp_exists: "mkdirp n p = Inr n' \<Longrightarrow> lookup n' p \<noteq> None"
proof (induction p arbitrary: n n')
  case Nil
  then show ?case by simp
next
  case (Cons d ds)
  from Cons.prems obtain es where n: "n = Dir es" by (cases n) auto
  from Cons.prems n obtain m0 m' where "mkdirp m0 ds = Inr m'" "n' = Dir (AList.update d m' es)"
    by (auto split: sum.splits)
  then show ?case using Cons.IH by (simp add: update_conv')
qed

lemma ensureDir_Ok_exists:
  "ensureDir t st = (Ok u, st1) \<Longrightarrow> lookup (fs st1) t \<noteq> None"
  by (auto simp add: ensureDir_def existsSync_def split: if_splits sum.splits dest: mkdirp_exists)

lemma mkdtemp_fresh:
  assumes "mkdtemp root dir pre sufs = Inr (p, root')"
  shows "\<exists>x. p = dir @ [x]" "lookup root p = None"
proof -
  from assms obtain es where es: "lookup root dir = Some (Dir es)"
    by (auto simp add: mkdtemp_def split: option.splits node.splits)
  from assms es obtain s rest where s: "filter (\<lambda>s. map_of es (pre @ s) = None) sufs = s # rest"
    "p = dir @ [pre @ s]"
    by (auto simp add: mkdtemp_def split: list.splits sum.splits)
  from s(1) have "s \<in> set (filter (\<lambda>s. map_of es (pre @ s) = None) sufs)" by simp
  then have "map_of es (pre @ s) = None" by simp
  then show "lookup root p = None" using es s(2) by (simp add: lookup_append)
  show "\<exists>x. p = dir @ [x]" using s(2) by blast
qed

lemma lookup_prefix_None:
  "lookup root p = None \<Longrightarrow> prefix p q \<Longrightarrow> lookup root q = None"
  by (auto simp add: prefix_def lookup_append)

lemma staging_apart:
  assumes fresh: "lookup root tempRoot = None" and tr: "tempRoot = tmp @ [x]"
    and ex: "lookup root t \<noteq> None" and np: "\<not> prefix t tmp"
  shows "\<not> prefix (tempRoot @ [''repo'']) t" "\<not> prefix t (tempRoot @ [''repo''])"
proof -
  have a: "\<not> prefix tempRoot t"
  proof
    assume "prefix tempRoot t"
    then have "lookup root t = None" using fresh by (rule lookup_prefix_None[rotated])
    then show False using ex by simp
  qed
  then show "\<not> prefix (tempRoot @ [''repo'']) t" by (meson append_prefixD)
  have "t \<noteq> tempRoot" using a by auto
  moreover have "t \<noteq> tempRoot @ [''repo'']" using a by auto
  moreover have "\<not> prefix t tempRoot"
    using np \<open>t \<noteq> tempRoot\<close> unfolding tr prefix_snoc by simp
  ultimately show "\<not> prefix t (tempRoot @ [''repo''])"
    unfolding prefix_snoc by simp
qed

lemma init_to_materialize:
  assumes target: "targetDir = resolve (cwd e) (case rawTarget of None \<Rightarrow> ''.'' | Some r \<Rightarrow> r)"
    and ens: "ensureDir targetDir st = (Ok (), st1)"
    and emp: "isDirEmpty (fs st1) targetDir = Inr True"
    and nogit: "\<not> existsSync (fs st1) (targetDir @ [''.git''])"
  shows "initProject fuel e rawTarget options st =
     (case materialize fuel e targetDir (targetDir = cwd e) st1 of
        None \<Rightarrow> None
      | Some (Ok u, st') \<Rightarrow> Some (Ok (), report e targetDir st')
      | Some (Exit n, st') \<Rightarrow> Some (Exit n, st')
      | Some (Throw err, st') \<Rightarrow> Some (Throw err, st'))"
  using target[symmetric] ens emp nogit
  by (cases "''--force'' \<in> options")
     (simp_all add: initProject_def andNotEmpty_def forceClear_def finishInit_def Let_def)

lemma materialize_direct:
  "materialize fuel e targetDir False st1 = Some (cloneRepo e targetDir st1)"
  by (simp add: materialize_def)

lemma materialize_staged_new:
  assumes m: "materialize fuel e t True st1 = Some (r, st')"
    and tmp: "mkdtemp (fs st1) (tmpdir e) ''webclaw-'' (suffixes e) = Inr (tempRoot, root2)"
    and clone: "cloneRepo e (tempRoot @ [''repo'']) (emit (Mkdtemp tempRoot) (st1\<lparr>fs := root2\<rparr>)) =
                  (Ok (), st3)"
    and new: "lookup (fs st') q \<noteq> None" "lookup (fs st3) q = None"
  shows "covered t q"
proof -
  from m tmp clone obtain r4 st4 where
    c: "copyDir fuel (tempRoot @ [''repo'']) t st3 = Some (r4, st4)"
    and st': "st' = st4 \<or> st' = rmSync tempRoot st4"
    by (auto simp add: materialize_def Let_def split: option.splits res.splits)
  have "lookup (fs st4) q \<noteq> None"
  proof (cases "st' = st4")
    case True
    then show ?thesis using new(1) by simp
  next
    case False
    then have "lookup (rmrf (fs st4) tempRoot) q \<noteq> None" using st' new(1) by simp
    then show ?thesis by (rule rmrf_no_new)
  qed
  then show ?thesis using copy_new(1)[OF c _ new(2)] by simp
qed

lemma materialize_staged_returns:
  assumes ex: "lookup (fs st1) t \<noteq> None" and np: "\<not> prefix t (tmpdir e)"
  shows "\<exists>k. \<forall>fuel > k. materialize fuel e t True st1 \<noteq> None"
proof (cases "mkdtemp (fs st1) (tmpdir e) ''webclaw-'' (suffixes e)")
  case (Inl err)
  then show ?thesis by (simp add: materialize_def)
next
  case (Inr pr)
  then obtain tempRoot root2 where
    tmp: "mkdtemp (fs st1) (tmpdir e) ''webclaw-'' (suffixes e) = Inr (tempRoot, root2)"
    by (cases pr) simp
  obtain r3 st3 where
    clone: "cloneRepo e (tempRoot @ [''repo'']) (emit (Mkdtemp tempRoot) (st1\<lparr>fs := root2\<rparr>)) =
              (r3, st3)"
    by (cases "cloneRepo e (tempRoot @ [''repo'']) (emit (Mkdtemp tempRoot) (st1\<lparr>fs := root2\<rparr>))")
  from mkdtemp_fresh[OF tmp] obtain x where x: "tempRoot = tmpdir e @ [x]"
    and fresh: "lookup (fs st1) tempRoot = None" by blast
  note ap = staging_apart[OF fresh x ex np]
  have "materialize fuel e t True st1 \<noteq> None" if "weight (fs st3) (tempRoot @ [''repo'']) < fuel"
    for fuel
  proof -
    from copy_terminates(1)[OF ap that] obtain r4 st4 where
      "copyDir fuel (tempRoot @ [''repo'']) t st3 = Some (r4, st4)" by auto
    then show ?thesis using tmp clone
      by (simp add: materialize_def Let_def split: res.splits)
  qed
  then show ?thesis by blast
qed


lemma covered_below:
  assumes "covered t (t @ rel)"
  shows "\<forall>name \<in> set rel. \<not> skipped name"
proof (cases "rel = []")
  case True
  then show ?thesis by simp
next
  case False
  then have "\<not> prefix (t @ rel) t" by (simp add: prefix_def)
  then have "clean rel" using assms by (simp add: covered_def)
  then show ?thesis by (simp add: clean_def list_all_iff)
qed

text \<open>
  C10. Take an \<^verbatim>\<open>init\<close> that reaches the materialisation step: the target exists after
  \<^verbatim>\<open>ensureDir\<close>, holds no \<^verbatim>\<open>.git\<close> and is classified empty.

  When the target is the current working directory the template is cloned into a
  temporary directory and copied from there. Every path below the target that exists
  after \<^verbatim>\<open>init\<close> and did not exist right after the clone has no component named
  \<^verbatim>\<open>node_modules\<close>, \<^verbatim>\<open>.git\<close>, \<^verbatim>\<open>.env.local\<close>, \<^verbatim>\<open>.openclaw\<close>, \<^verbatim>\<open>.webclaw\<close>,
  \<^verbatim>\<open>.tanstack\<close> or \<^verbatim>\<open>.DS_Store\<close>, at any depth; in particular the target has no
  \<^verbatim>\<open>.git\<close> afterwards unless the clone process itself put one there. The copy ends:
  when the current directory is neither \<^verbatim>\<open>os.tmpdir()\<close> nor an ancestor of it,
  \<^verbatim>\<open>init\<close> returns for all large enough fuel.

  When the target is another directory the clone goes straight into it and nothing is
  filtered: the file system after \<^verbatim>\<open>init\<close> is the one the clone left, \<^verbatim>\<open>.git\<close> included.
\<close>

theorem staged_copy_skips_git_direct_clone_keeps_it:
  assumes target: "targetDir = resolve (cwd e) (case rawTarget of None \<Rightarrow> ''.'' | Some r \<Rightarrow> r)"
    and ens: "ensureDir targetDir st = (Ok (), st1)"
    and emp: "isDirEmpty (fs st1) targetDir = Inr True"
    and nogit: "\<not> existsSync (fs st1) (targetDir @ [''.git''])"
  shows
    "(targetDir = cwd e \<longrightarrow>
        (\<forall>tempRoot root2 st3 fuel r st'.
            mkdtemp (fs st1) (tmpdir e) ''webclaw-'' (suffixes e) = Inr (tempRoot, root2) \<and>
            cloneRepo e (tempRoot @ [''repo'']) (emit (Mkdtemp tempRoot) (st1\<lparr>fs := root2\<rparr>)) =
              (Ok (), st3) \<and>
            initProject fuel e rawTarget options st = Some (r, st') \<longrightarrow>
              (\<forall>rel. lookup (fs st') (targetDir @ rel) \<noteq> None \<and>
                     lookup (fs st3) (targetDir @ rel) = None \<longrightarrow>
                     (\<forall>name \<in> set rel. \<not> skipped name)) \<and>
              (\<not> existsSync (fs st3) (targetDir @ [''.git'']) \<longrightarrow>
                 \<not> existsSync (fs st') (targetDir @ [''.git'']))) \<and>
        (\<not> prefix (cwd e) (tmpdir e) \<longrightarrow>
           (\<exists>k. \<forall>fuel > k. initProject fuel e rawTarget options st \<noteq> None))) \<and>
     (targetDir \<noteq> cwd e \<longrightarrow>
        (\<forall>fuel u st3. cloneRepo e targetDir st1 = (Ok u, st3) \<longrightarrow>
           initProject fuel e rawTarget options st = Some (Ok (), report e targetDir st3) \<and>
           fs (report e targetDir st3) = fs st3))"
proof -
  note init = init_to_materialize[OF target ens emp nogit]
  have staged: "\<not> skipped name"
    if cur: "targetDir = cwd e"
      and tmp: "mkdtemp (fs st1) (tmpdir e) ''webclaw-'' (suffixes e) = Inr (tempRoot, root2)"
      and clone: "cloneRepo e (tempRoot @ [''repo''])
                    (emit (Mkdtemp tempRoot) (st1\<lparr>fs := root2\<rparr>)) = (Ok (), st3)"
      and run: "initProject fuel e rawTarget options st = Some (r, st')"
      and new: "lookup (fs st') (targetDir @ rel) \<noteq> None" "lookup (fs st3) (targetDir @ rel) = None"
      and name: "name \<in> set rel"
    for tempRoot root2 st3 fuel r st' rel name
  proof -
    from run init[of fuel options] cur obtain rm stm where
      m: "materialize fuel e targetDir True st1 = Some (rm, stm)" and f: "fs st' = fs stm"
      by (auto simp add: report_simps(1) split: option.splits res.splits)
    have "covered targetDir (targetDir @ rel)"
      using materialize_staged_new[OF m tmp clone _ new(2)] new(1) f by simp
    then show ?thesis using covered_below name by blast
  qed
  have top: "\<not> existsSync (fs st') (targetDir @ [''.git''])"
    if cur: "targetDir = cwd e"
      and tmp: "mkdtemp (fs st1) (tmpdir e) ''webclaw-'' (suffixes e) = Inr (tempRoot, root2)"
      and clone: "cloneRepo e (tempRoot @ [''repo''])
                    (emit (Mkdtemp tempRoot) (st1\<lparr>fs := root2\<rparr>)) = (Ok (), st3)"
      and run: "initProject fuel e rawTarget options st = Some (r, st')"
      and no: "\<not> existsSync (fs st3) (targetDir @ [''.git''])"
    for tempRoot root2 st3 fuel r st'
  proof
    assume "existsSync (fs st') (targetDir @ [''.git''])"
    then have "\<not> skipped ''.git''"
      using staged[OF cur tmp clone run, of "[''.git'']" "''.git''"] no
      by (simp add: existsSync_def)
    then show False by (simp add: skipped_def)
  qed
  have total: "\<exists>k. \<forall>fuel > k. initProject fuel e rawTarget options st \<noteq> None"
    if cur: "targetDir = cwd e" and np: "\<not> prefix (cwd e) (tmpdir e)"
  proof -
    have "lookup (fs st1) targetDir \<noteq> None" using ens by (rule ensureDir_Ok_exists)
    then obtain k where "\<forall>fuel > k. materialize fuel e targetDir True st1 \<noteq> None"
      using materialize_staged_returns[of st1 targetDir e] np cur by auto
    then have "\<forall>fuel > k. initProject fuel e rawTarget options st \<noteq> None"
      using init cur by (auto split: option.splits res.splits)
    then show ?thesis by blast
  qed
  have direct: "initProject fuel e rawTarget options st = Some (Ok (), report e targetDir st3)"
    if "targetDir \<noteq> cwd e" "cloneRepo e targetDir st1 = (Ok u, st3)" for fuel u st3
    using that init[of fuel options] by (simp add: materialize_direct)
  show ?thesis
  proof (intro conjI impI allI ballI; (elim conjE)?)
    fix tempRoot root2 st3 fuel r st' rel name
    assume "targetDir = cwd e"
      "mkdtemp (fs st1) (tmpdir e) ''webclaw-'' (suffixes e) = Inr (tempRoot, root2)"
      "cloneRepo e (tempRoot @ [''repo'']) (emit (Mkdtemp tempRoot) (st1\<lparr>fs := root2\<rparr>)) =
         (Ok (), st3)"
      "initProject fuel e rawTarget options st = Some (r, st')"
      "lookup (fs st') (targetDir @ rel) \<noteq> None" "lookup (fs st3) (targetDir @ rel) = None"
      "name \<in> set rel"
    then show "\<not> skipped name" by (rule staged)
  next
    fix tempRoot root2 st3 fuel r st'
    assume "targetDir = cwd e"
      "mkdtemp (fs st1) (tmpdir e) ''webclaw-'' (suffixes e) = Inr (tempRoot, root2)"
      "cloneRepo e (tempRoot @ [''repo'']) (emit (Mkdtemp tempRoot) (st1\<lparr>fs := root2\<rparr>)) =
         (Ok (), st3)"
      "initProject fuel e rawTarget options st = Some (r, st')"
      "\<not> existsSync (fs st3) (targetDir @ [''.git''])"
    then show "\<not> existsSync (fs st') (targetDir @ [''.git''])" by (rule top)
  next
    assume "targetDir = cwd e" "\<not> prefix (cwd e) (tmpdir e)"
    then show "\<exists>k. \<forall>fuel > k. initProject fuel e rawTarget options st \<noteq> None" by (rule total)
  next
    fix fuel u st3
    assume "targetDir \<noteq> cwd e" "cloneRepo e targetDir st1 = (Ok u, st3)"
    then show "initProject fuel e rawTarget options st = Some (Ok (), report e targetDir st3)"
      by (rule direct)
  next
    fix st3
    show "fs (report e targetDir st3) = fs st3" by (rule report_simps(1))
  qed
qed

theorem staged_copy_skips_git_direct_clone_keeps_it_witness:
  "ensureDir [''home'', ''fresh''] sampleState = (Ok (), sampleState) \<and>
   isDirEmpty (fs sampleState) [''home'', ''fresh''] = Inr True \<and>
   \<not> existsSync (fs sampleState) ([''home'', ''fresh''] @ [''.git'']) \<and>
   [''home'', ''fresh''] = cwd (sampleEnv [''home'', ''fresh''] []) \<and>
   mkdtemp (fs sampleState) (tmpdir (sampleEnv [''home'', ''fresh''] [])) ''webclaw-''
     (suffixes (sampleEnv [''home'', ''fresh''] [])) = Inr (fst stagedTemp, snd stagedTemp) \<and>
   fst stagedTemp = [''tmp'', ''webclaw-a1B2c3''] \<and>
   cloneRepo (sampleEnv [''home'', ''fresh''] []) (fst stagedTemp @ [''repo''])
     (emit (Mkdtemp (fst stagedTemp)) (sampleState\<lparr>fs := snd stagedTemp\<rparr>)) = (Ok (), stagedClone) \<and>
   existsSync (fs stagedClone) [''tmp'', ''webclaw-a1B2c3'', ''repo'', ''.git''] \<and>
   existsSync (fs stagedClone) [''tmp'', ''webclaw-a1B2c3'', ''repo'', ''src'', ''node_modules''] \<and>
   initProject 3 (sampleEnv [''home'', ''fresh''] []) None {} sampleState =
     Some (Ok (), afterStagedRun) \<and>
   lookup (fs afterStagedRun) ([''home'', ''fresh''] @ [''src'', ''main.ts'']) \<noteq> None \<and>
   lookup (fs stagedClone) ([''home'', ''fresh''] @ [''src'', ''main.ts'']) = None \<and>
   \<not> skipped ''src'' \<and> \<not> skipped ''main.ts'' \<and>
   \<not> existsSync (fs stagedClone) ([''home'', ''fresh''] @ [''.git'']) \<and>
   \<not> existsSync (fs afterStagedRun) ([''home'', ''fresh''] @ [''.git'']) \<and>
   \<not> existsSync (fs afterStagedRun) [''home'', ''fresh'', ''src'', ''node_modules''] \<and>
   \<not> prefix (cwd (sampleEnv [''home'', ''fresh''] [])) (tmpdir (sampleEnv [''home'', ''fresh''] [])) \<and>
   (\<exists>k. \<forall>fuel > k. initProject fuel (sampleEnv [''home'', ''fresh''] []) None {} sampleState \<noteq> None) \<and>
   [''home'', ''new''] \<noteq> cwd (sampleEnv [''home''] []) \<and>
   ensureDir [''home'', ''new''] sampleState =
     (Ok (), snd (ensureDir [''home'', ''new''] sampleState)) \<and>
   isDirEmpty (fs (snd (ensureDir [''home'', ''new''] sampleState))) [''home'', ''new''] = Inr True \<and>
   cloneRepo (sampleEnv [''home''] []) [''home'', ''new'']
     (snd (ensureDir [''home'', ''new''] sampleState)) =
     (Ok (), snd (cloneRepo (sampleEnv [''home''] []) [''home'', ''new'']
                    (snd (ensureDir [''home'', ''new''] sampleState)))) \<and>
   initProject 0 (sampleEnv [''home''] []) (Some ''new'') {} sampleState =
     Some (Ok (), report (sampleEnv [''home''] []) [''home'', ''new'']
                    (snd (cloneRepo (sampleEnv [''home''] []) [''home'', ''new'']
                            (snd (ensureDir [''home'', ''new''] sampleState))))) \<and>
   existsSync (fs (report (sampleEnv [''home''] []) [''home'', ''new'']
                    (snd (cloneRepo (sampleEnv [''home''] []) [''home'', ''new'']
                            (snd (ensureDir [''home'', ''new''] sampleState))))))
     [''home'', ''new'', ''.git'']"
proof -
  let ?e = "sampleEnv [''home'', ''fresh''] []"
  let ?t = "[''home'', ''fresh'']"
  have target: "?t = resolve (cwd ?e) (case None of None \<Rightarrow> ''.'' | Some r \<Rightarrow> r)"
    by code_simp
  have ens: "ensureDir ?t sampleState = (Ok (), sampleState)" by code_simp
  have emp: "isDirEmpty (fs sampleState) ?t = Inr True" by code_simp
  have nogit: "\<not> existsSync (fs sampleState) (?t @ [''.git''])" by code_simp
  have cur: "?t = cwd ?e" by code_simp
  have tmp: "mkdtemp (fs sampleState) (tmpdir ?e) ''webclaw-'' (suffixes ?e) =
      Inr (fst stagedTemp, snd stagedTemp)" by code_simp
  have tmp1: "fst stagedTemp = [''tmp'', ''webclaw-a1B2c3'']" by code_simp
  have clone: "cloneRepo ?e (fst stagedTemp @ [''repo''])
     (emit (Mkdtemp (fst stagedTemp)) (sampleState\<lparr>fs := snd stagedTemp\<rparr>)) = (Ok (), stagedClone)"
    by code_simp
  have c1: "existsSync (fs stagedClone) [''tmp'', ''webclaw-a1B2c3'', ''repo'', ''.git'']"
    "existsSync (fs stagedClone) [''tmp'', ''webclaw-a1B2c3'', ''repo'', ''src'', ''node_modules'']"
    by code_simp+
  have run: "initProject 3 ?e None {} sampleState = Some (Ok (), afterStagedRun)" by code_simp
  have new: "lookup (fs afterStagedRun) (?t @ [''src'', ''main.ts'']) \<noteq> None"
    "lookup (fs stagedClone) (?t @ [''src'', ''main.ts'']) = None" by code_simp+
  have no3: "\<not> existsSync (fs stagedClone) (?t @ [''.git''])" by code_simp
  have nm: "\<not> existsSync (fs afterStagedRun) [''home'', ''fresh'', ''src'', ''node_modules'']"
    by code_simp
  have np: "\<not> prefix (cwd ?e) (tmpdir ?e)" by code_simp
  note S = staged_copy_skips_git_direct_clone_keeps_it[where options="{}", THEN conjunct1,
      THEN mp, THEN conjunct1, rule_format,
      OF target ens emp nogit cur conjI[OF tmp conjI[OF clone run]]]
  have "\<forall>name \<in> set [''src'', ''main.ts'']. \<not> skipped name"
    using S[THEN conjunct1, THEN spec, of "[''src'', ''main.ts'']", THEN mp, OF conjI[OF new]] .
  then have s1: "\<not> skipped ''src''" "\<not> skipped ''main.ts''" by simp_all
  have s2: "\<not> existsSync (fs afterStagedRun) (?t @ [''.git''])"
    using S[THEN conjunct2, THEN mp, OF no3] .
  have s3: "\<exists>k. \<forall>fuel > k. initProject fuel ?e None {} sampleState \<noteq> None"
    using staged_copy_skips_git_direct_clone_keeps_it[where options="{}", THEN conjunct1,
      THEN mp, THEN conjunct2, rule_format, OF target ens emp nogit cur np] .
  let ?h = "sampleEnv [''home''] []"
  let ?n = "[''home'', ''new'']"
  let ?st1 = "snd (ensureDir ?n sampleState)"
  let ?st3 = "snd (cloneRepo ?h ?n ?st1)"
  have target': "?n = resolve (cwd ?h) (case Some ''new'' of None \<Rightarrow> ''.'' | Some r \<Rightarrow> r)"
    by code_simp
  have ens': "ensureDir ?n sampleState = (Ok (), ?st1)" by code_simp
  have emp': "isDirEmpty (fs ?st1) ?n = Inr True" by code_simp
  have nogit': "\<not> existsSync (fs ?st1) (?n @ [''.git''])" by code_simp
  have other: "?n \<noteq> cwd ?h" by (simp add: sampleEnv_def)
  have clone': "cloneRepo ?h ?n ?st1 = (Ok (), ?st3)" by code_simp
  have git': "existsSync (fs ?st3) [''home'', ''new'', ''.git'']" by code_simp
  note D = staged_copy_skips_git_direct_clone_keeps_it[where options="{}", THEN conjunct2,
      rule_format, OF target' ens' emp' nogit' other clone', where fuel=0]
  have d1: "initProject 0 ?h (Some ''new'') {} sampleState = Some (Ok (), report ?h ?n ?st3)"
    using D by (rule conjunct1)
  have d2: "existsSync (fs (report ?h ?n ?st3)) [''home'', ''new'', ''.git'']"
    using D[THEN conjunct2] git' by (simp only:)
  show ?thesis
    by (intro conjI) (fact ens emp nogit cur tmp tmp1 clone c1 run new s1 no3 s2 nm np s3 other
        ens' emp' clone' d1 d2)+
qed

end
